theory Spec2Isabelle
  imports Main
begin

section \<open>Strings and numbers of the source language\<close>

text \<open>
  A TypeScript string is a sequence of UTF-16 code units; it is modelled as the list of
  those code units. Every literal of the source is written out below, with the place it
  comes from. Equality (\<open>===\<close>), concatenation (templates) and \<open>startsWith\<close> are
  the only string operations the modelled code uses.
\<close>

type_synonym jstring = "nat list"

definition startsWith :: "jstring \<Rightarrow> jstring \<Rightarrow> bool" where
  "startsWith s p = (take (length p) s = p)"

text \<open>
  Rendering of an integral number inside a template literal: decimal digits, with a
  leading minus sign for a negative value.
\<close>

function show_nat :: "nat \<Rightarrow> jstring" where
  "show_nat n = (if n < 10 then [48 + n] else show_nat (n div 10) @ [48 + n mod 10])"
  by pat_completeness auto
termination
  by (relation "measure id") auto

declare show_nat.simps [simp del]

definition show_int :: "int \<Rightarrow> jstring" where
  "show_int i = (if i < 0 then 45 # show_nat (nat (- i)) else show_nat (nat i))"

text \<open>
  The falsy test of \<open>a || b\<close> on a value of type \<open>string | null\<close>: \<open>null\<close> and the
  empty string both select \<open>b\<close>.
\<close>

definition or_default :: "jstring option \<Rightarrow> jstring \<Rightarrow> jstring" where
  "or_default a b = (case a of None \<Rightarrow> b | Some m \<Rightarrow> if m = [] then b else m)"

subsection \<open>The literals\<close>

text \<open>
  Each literal is preceded by its place in the source and a transliteration into Latin
  letters; a pictograph is named in parentheses.
\<close>

text \<open>part_013:42, template head: \<^verbatim>\<open>Pomylka serveru: \<close>\<close>

definition msg_server_error :: jstring where
  "msg_server_error =
     [1055, 1086, 1084, 1080, 1083, 1082, 1072, 32, 1089, 1077, 1088, 1074, 1077, 1088, 1091,
      58, 32]"

text \<open>part_013:94: \<^verbatim>\<open>Ne vdalosia otrymaty status analizu.\<close>\<close>

definition msg_status_error :: jstring where
  "msg_status_error =
     [1053, 1077, 32, 1074, 1076, 1072, 1083, 1086, 1089, 1103, 32, 1086, 1090, 1088, 1080,
      1084, 1072, 1090, 1080, 32, 1089, 1090, 1072, 1090, 1091, 1089, 32, 1072, 1085, 1072,
      1083, 1110, 1079, 1091, 46]"

text \<open>part_013:134: \<^verbatim>\<open>Analiz zavershyvsia z pomylkoiu\<close>\<close>

definition msg_analysis_failed :: jstring where
  "msg_analysis_failed =
     [1040, 1085, 1072, 1083, 1110, 1079, 32, 1079, 1072, 1074, 1077, 1088, 1096, 1080, 1074,
      1089, 1103, 32, 1079, 32, 1087, 1086, 1084, 1080, 1083, 1082, 1086, 1102]"

text \<open>part_013:159: \<^verbatim>\<open>Ne vdalosia zavantazhyty rezultaty.\<close>\<close>

definition msg_results_error :: jstring where
  "msg_results_error =
     [1053, 1077, 32, 1074, 1076, 1072, 1083, 1086, 1089, 1103, 32, 1079, 1072, 1074, 1072,
      1085, 1090, 1072, 1078, 1080, 1090, 1080, 32, 1088, 1077, 1079, 1091, 1083, 1100, 1090,
      1072, 1090, 1080, 46]"

text \<open>socket.ts:62: \<^verbatim>\<open>WebSocket z'iednano. Ochikuiu lohy...\<close>\<close>

definition msg_ws_connected :: jstring where
  "msg_ws_connected =
     [87, 101, 98, 83, 111, 99, 107, 101, 116, 32, 1079, 39, 1108, 1076, 1085, 1072, 1085,
      1086, 46, 32, 1054, 1095, 1110, 1082, 1091, 1102, 32, 1083, 1086, 1075, 1080, 46, 46, 46]"

text \<open>socket.ts:70: \<^verbatim>\<open>Analiz zaversheno\<close>\<close>

definition completion_marker :: jstring where
  "completion_marker =
     [1040, 1085, 1072, 1083, 1110, 1079, 32, 1079, 1072, 1074, 1077, 1088, 1096, 1077, 1085,
      1086]"

text \<open>socket.ts:78: \<^verbatim>\<open>Pomylka STOMP. Onovit storinku.\<close>\<close>

definition msg_stomp_error :: jstring where
  "msg_stomp_error =
     [1055, 1086, 1084, 1080, 1083, 1082, 1072, 32, 83, 84, 79, 77, 80, 46, 32, 1054, 1085,
      1086, 1074, 1110, 1090, 1100, 32, 1089, 1090, 1086, 1088, 1110, 1085, 1082, 1091, 46]"

text \<open>socket.ts:96: \<^verbatim>\<open>WebSocket vid'iednano.\<close>\<close>

definition msg_console_disconnected :: jstring where
  "msg_console_disconnected =
     [87, 101, 98, 83, 111, 99, 107, 101, 116, 32, 1074, 1110, 1076, 39, 1108, 1076, 1085,
      1072, 1085, 1086, 46]"

text \<open>App.tsx:95: \<^verbatim>\<open>(hourglass with flowing sand) Ochikuvannia pochatku analizu...\<close>\<close>

definition msg_PENDING :: jstring where
  "msg_PENDING =
     [9203, 32, 1054, 1095, 1110, 1082, 1091, 1074, 1072, 1085, 1085, 1103, 32, 1087, 1086,
      1095, 1072, 1090, 1082, 1091, 32, 1072, 1085, 1072, 1083, 1110, 1079, 1091, 46, 46, 46]"

text \<open>App.tsx:96: \<^verbatim>\<open>(inbox tray) Klonuvannia repozytoriiu...\<close>\<close>

definition msg_CLONING :: jstring where
  "msg_CLONING =
     [55357, 56549, 32, 1050, 1083, 1086, 1085, 1091, 1074, 1072, 1085, 1085, 1103, 32, 1088,
      1077, 1087, 1086, 1079, 1080, 1090, 1086, 1088, 1110, 1102, 46, 46, 46]"

text \<open>App.tsx:97: \<^verbatim>\<open>(left-pointing magnifying glass) Analiz Java failiv...\<close>\<close>

definition msg_ANALYZING :: jstring where
  "msg_ANALYZING =
     [55357, 56589, 32, 1040, 1085, 1072, 1083, 1110, 1079, 32, 74, 97, 118, 97, 32, 1092,
      1072, 1081, 1083, 1110, 1074, 46, 46, 46]"

text \<open>App.tsx:98: \<^verbatim>\<open>(white heavy check mark) Analiz zaversheno\<close>\<close>

definition msg_COMPLETED :: jstring where
  "msg_COMPLETED =
     [9989, 32, 1040, 1085, 1072, 1083, 1110, 1079, 32, 1079, 1072, 1074, 1077, 1088, 1096,
      1077, 1085, 1086]"

text \<open>App.tsx:99: \<^verbatim>\<open>(cross mark) Pomylka analizu\<close>\<close>

definition msg_FAILED :: jstring where
  "msg_FAILED =
     [10060, 32, 1055, 1086, 1084, 1080, 1083, 1082, 1072, 32, 1072, 1085, 1072, 1083, 1110,
      1079, 1091]"

text \<open>App.tsx:126: \<^verbatim>\<open>Nadsylaiu zapyt na analiz...\<close>\<close>

definition msg_sending :: jstring where
  "msg_sending =
     [1053, 1072, 1076, 1089, 1080, 1083, 1072, 1102, 32, 1079, 1072, 1087, 1080, 1090, 32,
      1085, 1072, 32, 1072, 1085, 1072, 1083, 1110, 1079, 46, 46, 46]"

text \<open>App.tsx:131: \<^verbatim>\<open>Zapyt stvoreno. ID: \<close>\<close>

definition msg_created_head :: jstring where
  "msg_created_head =
     [1047, 1072, 1087, 1080, 1090, 32, 1089, 1090, 1074, 1086, 1088, 1077, 1085, 1086, 46,
      32, 73, 68, 58, 32]"

text \<open>App.tsx:131: \<^verbatim>\<open>. Pidkliuchaius do lohiv...\<close>\<close>

definition msg_created_tail :: jstring where
  "msg_created_tail =
     [46, 32, 1055, 1110, 1076, 1082, 1083, 1102, 1095, 1072, 1102, 1089, 1100, 32, 1076,
      1086, 32, 1083, 1086, 1075, 1110, 1074, 46, 46, 46]"

text \<open>App.tsx:141: \<^verbatim>\<open>Z'iednannia WebSocket zakryto.\<close>\<close>

definition msg_ws_closed :: jstring where
  "msg_ws_closed =
     [1047, 39, 1108, 1076, 1085, 1072, 1085, 1085, 1103, 32, 87, 101, 98, 83, 111, 99, 107,
      101, 116, 32, 1079, 1072, 1082, 1088, 1080, 1090, 1086, 46]"

text \<open>App.tsx:146: \<^verbatim>\<open>Pereviriaiu status analizu...\<close>\<close>

definition msg_checking :: jstring where
  "msg_checking =
     [1055, 1077, 1088, 1077, 1074, 1110, 1088, 1103, 1102, 32, 1089, 1090, 1072, 1090, 1091,
      1089, 32, 1072, 1085, 1072, 1083, 1110, 1079, 1091, 46, 46, 46]"

text \<open>App.tsx:162: \<^verbatim>\<open>Zavantazhuiu rezultaty...\<close>\<close>

definition msg_loading :: jstring where
  "msg_loading =
     [1047, 1072, 1074, 1072, 1085, 1090, 1072, 1078, 1091, 1102, 32, 1088, 1077, 1079, 1091,
      1083, 1100, 1090, 1072, 1090, 1080, 46, 46, 46]"

text \<open>App.tsx:169: \<^verbatim>\<open>Znaideno \<close>\<close>

definition msg_found_head :: jstring where
  "msg_found_head =
     [1047, 1085, 1072, 1081, 1076, 1077, 1085, 1086, 32]"

text \<open>App.tsx:169: \<^verbatim>\<open> porushen\<close>\<close>

definition msg_found_tail :: jstring where
  "msg_found_tail =
     [32, 1087, 1086, 1088, 1091, 1096, 1077, 1085, 1100]"

text \<open>App.tsx:174, 211, 263: \<^verbatim>\<open>Pomylka: \<close>\<close>

definition msg_error_head :: jstring where
  "msg_error_head =
     [1055, 1086, 1084, 1080, 1083, 1082, 1072, 58, 32]"

text \<open>App.tsx:173, 262: \<^verbatim>\<open>Nevidoma pomylka\<close>\<close>

definition msg_unknown_error :: jstring where
  "msg_unknown_error =
     [1053, 1077, 1074, 1110, 1076, 1086, 1084, 1072, 32, 1087, 1086, 1084, 1080, 1083, 1082,
      1072]"

text \<open>App.tsx:196: \<^verbatim>\<open>Pochynaiu analiz kodu...\<close>\<close>

definition msg_code_start :: jstring where
  "msg_code_start =
     [1055, 1086, 1095, 1080, 1085, 1072, 1102, 32, 1072, 1085, 1072, 1083, 1110, 1079, 32,
      1082, 1086, 1076, 1091, 46, 46, 46]"

text \<open>App.tsx:199: \<^verbatim>\<open>Fail: \<close>\<close>

definition msg_file_head :: jstring where
  "msg_file_head =
     [1060, 1072, 1081, 1083, 58, 32]"

text \<open>App.tsx:202: \<^verbatim>\<open>Perevirka kompiliatsii...\<close>\<close>

definition msg_compile_check :: jstring where
  "msg_compile_check =
     [1055, 1077, 1088, 1077, 1074, 1110, 1088, 1082, 1072, 32, 1082, 1086, 1084, 1087, 1110,
      1083, 1103, 1094, 1110, 1111, 46, 46, 46]"

text \<open>App.tsx:219: \<^verbatim>\<open>(white heavy check mark) Kod uspishno kompiliuietsia\<close>\<close>

definition msg_compiles :: jstring where
  "msg_compiles =
     [9989, 32, 1050, 1086, 1076, 32, 1091, 1089, 1087, 1110, 1096, 1085, 1086, 32, 1082,
      1086, 1084, 1087, 1110, 1083, 1102, 1108, 1090, 1100, 1089, 1103]"

text \<open>App.tsx:221: \<^verbatim>\<open>(cross mark) Kod ne kompiliuietsia\<close>\<close>

definition msg_not_compiles :: jstring where
  "msg_not_compiles =
     [10060, 32, 1050, 1086, 1076, 32, 1085, 1077, 32, 1082, 1086, 1084, 1087, 1110, 1083,
      1102, 1108, 1090, 1100, 1089, 1103]"

text \<open>App.tsx:225: \<^verbatim>\<open>Riadok \<close>\<close>

definition msg_line_head :: jstring where
  "msg_line_head =
     [1056, 1103, 1076, 1086, 1082, 32]"

text \<open>App.tsx:232: \<^verbatim>\<open>Zapusk analizu Checkstyle...\<close>\<close>

definition msg_checkstyle :: jstring where
  "msg_checkstyle =
     [1047, 1072, 1087, 1091, 1089, 1082, 32, 1072, 1085, 1072, 1083, 1110, 1079, 1091, 32,
      67, 104, 101, 99, 107, 115, 116, 121, 108, 101, 46, 46, 46]"

text \<open>App.tsx:247: \<^verbatim>\<open>(glowing star)\<close>\<close>

definition emoji_star :: jstring where
  "emoji_star =
     [55356, 57119]"

text \<open>App.tsx:247: \<^verbatim>\<open>(thumbs up sign)\<close>\<close>

definition emoji_thumb :: jstring where
  "emoji_thumb =
     [55357, 56397]"

text \<open>App.tsx:247: \<^verbatim>\<open>(warning sign)\<close>\<close>

definition emoji_warn :: jstring where
  "emoji_warn =
     [9888, 65039]"

text \<open>App.tsx:250: \<^verbatim>\<open> Otsinka iakosti kodu: \<close>\<close>

definition msg_score_mid :: jstring where
  "msg_score_mid =
     [32, 1054, 1094, 1110, 1085, 1082, 1072, 32, 1103, 1082, 1086, 1089, 1090, 1110, 32,
      1082, 1086, 1076, 1091, 58, 32]"

text \<open>App.tsx:250: \<^verbatim>\<open>/100\<close>\<close>

definition msg_score_tail :: jstring where
  "msg_score_tail =
     [47, 49, 48, 48]"

text \<open>App.tsx:256: \<^verbatim>\<open>Analiz zaversheno. Znaideno \<close>\<close>

definition msg_done_head :: jstring where
  "msg_done_head =
     [1040, 1085, 1072, 1083, 1110, 1079, 32, 1079, 1072, 1074, 1077, 1088, 1096, 1077, 1085,
      1086, 46, 32, 1047, 1085, 1072, 1081, 1076, 1077, 1085, 1086, 32]"

text \<open>App.tsx:256: \<^verbatim>\<open> porushen.\<close>\<close>

definition msg_done_tail :: jstring where
  "msg_done_tail =
     [32, 1087, 1086, 1088, 1091, 1096, 1077, 1085, 1100, 46]"

text \<open>socket.ts:77: \<^verbatim>\<open>STOMP error:\<close>\<close>

definition msg_console_stomp_error :: jstring where
  "msg_console_stomp_error =
     [83, 84, 79, 77, 80, 32, 101, 114, 114, 111, 114, 58]"

text \<open>template rendering of undefined: \<^verbatim>\<open>undefined\<close>\<close>

definition msg_undefined :: jstring where
  "msg_undefined =
     [117, 110, 100, 101, 102, 105, 110, 101, 100]"

section \<open>The analysis API service\<close>

text \<open>
  A thrown value is either an \<open>Error\<close> object with its message or some other value
  (the \<open>catch\<close> blocks of the application test \<open>instanceof Error\<close>). The result
  of an \<open>async\<close> function is \<open>Inl\<close> of the thrown value or \<open>Inr\<close> of the value
  returned.
\<close>

datatype exn = Error jstring | NonError

text \<open>
  What \<open>fetch\<close> settles with: a rejection (network failure), or a response with its
  \<open>ok\<close> flag, status line, body text and parsed JSON body (parsing may throw).
\<close>

record 'a response =
  ok :: bool
  status_code :: nat
  statusText :: jstring
  text_body :: jstring
  json :: "exn + 'a"

datatype 'a fetched = Rejected exn | Resolved "'a response"

datatype status = PENDING | CLONING | ANALYZING | COMPLETED | FAILED

record AnalysisStatus =
  id_s :: int
  status :: status
  errorMessage :: "jstring option"
  createdAt :: jstring

record AnalysisResult =
  id_r :: int
  filePath :: jstring
  lineNumber :: int
  severity :: jstring
  message_r :: jstring

text \<open>
  The request identifier in the response body is a JSON string or a JSON number. A number
  is parsed to a double and rendered by \<open>String\<close>; it is represented here by the text
  of that rendering.
\<close>

datatype json_id = JString jstring | JNumber jstring

fun String_js :: "json_id \<Rightarrow> jstring" where
  "String_js (JString s) = s"
| "String_js (JNumber rendering) = rendering"

definition startAnalysis :: "json_id fetched \<Rightarrow> exn + jstring" where
  "startAnalysis f =
     (case f of
        Rejected e \<Rightarrow> Inl e
      | Resolved response \<Rightarrow>
          if \<not> ok response then
            Inl (Error (msg_server_error @ show_nat (status_code response) @ [32]
                        @ statusText response @ [46, 32] @ text_body response))
          else (case json response of
                  Inl e \<Rightarrow> Inl e
                | Inr requestId \<Rightarrow> Inr (String_js requestId)))"

definition checkStatus :: "AnalysisStatus fetched \<Rightarrow> exn + AnalysisStatus" where
  "checkStatus f =
     (case f of
        Rejected e \<Rightarrow> Inl e
      | Resolved response \<Rightarrow>
          if \<not> ok response then Inl (Error msg_status_error) else json response)"

definition fetchResults :: "AnalysisResult list fetched \<Rightarrow> exn + AnalysisResult list" where
  "fetchResults f =
     (case f of
        Rejected e \<Rightarrow> Inl e
      | Resolved response \<Rightarrow>
          if \<not> ok response then Inl (Error msg_results_error) else json response)"

text \<open>
  The optional callback of \<open>pollStatus\<close> (\<open>if (onStatusUpdate) onStatusUpdate(status)\<close>),
  and one turn of its \<open>while (true)\<close> loop after the two-second wait: the status
  check, the callback, the two exits. The callback acts on a state
  \<open>'s\<close>. The outcome is \<open>None\<close> when the loop goes round again.
\<close>

definition notify :: "(AnalysisStatus \<Rightarrow> 's \<Rightarrow> 's) option \<Rightarrow> AnalysisStatus \<Rightarrow> 's \<Rightarrow> 's" where
  "notify onStatusUpdate st s = (case onStatusUpdate of Some cb \<Rightarrow> cb st s | None \<Rightarrow> s)"

definition pollTurn ::
  "(AnalysisStatus \<Rightarrow> 's \<Rightarrow> 's) option \<Rightarrow> AnalysisStatus fetched \<Rightarrow> 's
     \<Rightarrow> 's \<times> (exn + AnalysisStatus) option" where
  "pollTurn onStatusUpdate f s =
     (case checkStatus f of
        Inl e \<Rightarrow> (s, Some (Inl e))
      | Inr st \<Rightarrow>
          let s' = notify onStatusUpdate st s in
          if status st = COMPLETED then (s', Some (Inr st))
          else if status st = FAILED then
            (s', Some (Inl (Error (or_default (errorMessage st) msg_analysis_failed))))
          else (s', None))"

text \<open>
  The loop, run against the responses that the successive status requests receive. It
  returns the callback state, the number of status requests made and the outcome; the
  outcome is \<open>None\<close> when every given response has been consumed and the loop is
  still polling.
\<close>

fun pollStatus ::
  "(AnalysisStatus \<Rightarrow> 's \<Rightarrow> 's) option \<Rightarrow> AnalysisStatus fetched list \<Rightarrow> 's
     \<Rightarrow> 's \<times> nat \<times> (exn + AnalysisStatus) option" where
  "pollStatus onStatusUpdate [] s = (s, 0, None)"
| "pollStatus onStatusUpdate (f # fs) s =
     (case pollTurn onStatusUpdate f s of
        (s', Some r) \<Rightarrow> (s', 1, Some r)
      | (s', None) \<Rightarrow>
          (case pollStatus onStatusUpdate fs s' of (s'', n, r) \<Rightarrow> (s'', Suc n, r)))"

text \<open>A successful status response carrying the given status object.\<close>

definition status_response :: "AnalysisStatus \<Rightarrow> AnalysisStatus fetched" where
  "status_response st =
     Resolved \<lparr>ok = True, status_code = 200, statusText = [79, 75], text_body = [],
               json = Inr st\<rparr>"

definition in_progress :: "AnalysisStatus \<Rightarrow> bool" where
  "in_progress st = (status st = PENDING \<or> status st = CLONING \<or> status st = ANALYZING)"

text \<open>A successful response with the given JSON body, and a status object.\<close>

definition ok_json :: "'a \<Rightarrow> 'a fetched" where
  "ok_json v =
     Resolved \<lparr>ok = True, status_code = 200, statusText = [79, 75], text_body = [],
               json = Inr v\<rparr>"

definition status_object :: "status \<Rightarrow> jstring option \<Rightarrow> AnalysisStatus" where
  "status_object x m = \<lparr>id_s = 1, status = x, errorMessage = m, createdAt = []\<rparr>"

section \<open>The application state\<close>

datatype level = IGNORE | INFO | WARNING | ERROR

record LogEntry =
  level :: level
  message :: jstring

text \<open>
  Modelled from the spec: the result bundle of \<open>analyzeCode\<close>, whose declaration is
  not among the sources. The spec gives it violations, optional compilation diagnostics
  (a line number and a message for each error) and a numeric quality score; the fields
  below are the ones that \<open>handleCodeAnalysis\<close> reads, under the names it uses. A
  field that the handler compares with \<open>undefined\<close> is an option, an absent
  \<open>errorMessage\<close> is rendered as \<open>undefined\<close> by the template, and numbers are
  integers.
\<close>

record CompilationError =
  lineNumber_e :: int
  message_e :: jstring

record Violation =
  filePath_v :: jstring
  lineNumber_v :: int
  severity_v :: jstring
  message_v :: jstring

record CodeAnalysisResult =
  success :: bool
  errorMessage_c :: "jstring option"
  compilationSuccess :: "bool option"
  compilationErrors :: "CompilationError list"
  violations :: "Violation list"
  qualityScore :: "int option"
  violationCount :: int

text \<open>
  A STOMP client created by \<open>connectWebSocket\<close>: the request identifier its closures
  captured, and whether it is still activated.
\<close>

record client =
  requestId_c :: jstring
  active :: bool

text \<open>The network requests that the handlers issue, in the order they are issued.\<close>

datatype request =
  POST_analyze jstring
| GET_status jstring
| GET_results jstring
| CALL_analyzeCode jstring "jstring option"

text \<open>
  An \<open>async\<close> handler runs until its next \<open>await\<close> and resumes when the awaited
  call settles. \<open>task\<close> is the point where the running handler is suspended.
\<close>

datatype task = Idle | AwaitSubmit | Polling jstring | AwaitResults jstring | AwaitCode

text \<open>
  The state: the React state of \<open>App\<close> (\<open>logs\<close> to \<open>analysisStatus\<close>), the
  module state of the socket service (\<open>stompClient\<close> is the singleton, an index into
  the clients created so far; a subscription is the client that carries it and the
  request identifier of its topic), the console lines written, the requests issued and
  the suspended handler. An event handler sees the state that the previous event left:
  React has rendered again before the next event is dispatched, and every update of the
  log is a functional update.
\<close>

record state =
  logs :: "LogEntry list"
  results :: "AnalysisResult list"
  isAnalyzing :: bool
  currentRequestId :: "jstring option"
  analysisStatus :: "status option"
  stompClient :: "nat option"
  clients :: "client list"
  subscriptions :: "(nat \<times> jstring) list"
  console :: "jstring list"
  net :: "request list"
  task :: task

definition init :: state where
  "init = \<lparr>logs = [], results = [], isAnalyzing = False, currentRequestId = None,
            analysisStatus = None, stompClient = None, clients = [], subscriptions = [],
            console = [], net = [], task = Idle\<rparr>"

section \<open>The socket service\<close>

definition connectWebSocket :: "jstring \<Rightarrow> state \<Rightarrow> state" where
  "connectWebSocket requestId s =
     s\<lparr>clients := clients s @ [\<lparr>requestId_c = requestId, active = True\<rparr>],
       stompClient := Some (length (clients s))\<rparr>"

definition disconnectWebSocket :: "state \<Rightarrow> state" where
  "disconnectWebSocket s =
     (let s1 = (case stompClient s of
                  Some c \<Rightarrow> s\<lparr>clients := (clients s)[c := (clients s ! c)\<lparr>active := False\<rparr>]\<rparr>
                | None \<Rightarrow> s)
      in s1\<lparr>stompClient := None, console := console s1 @ [msg_console_disconnected]\<rparr>)"

text \<open>
  The three callbacks that \<open>connectWebSocket\<close> hands to the client, as functions of
  the callbacks it was given: \<open>onConnect\<close> (with the request identifier of its
  closure), the subscription callback and \<open>onStompError\<close>.
\<close>

definition onConnect :: "jstring \<Rightarrow> (LogEntry \<Rightarrow> state \<Rightarrow> state) \<Rightarrow> state \<Rightarrow> state" where
  "onConnect requestId onLogReceived s =
     (let s1 = onLogReceived \<lparr>level = INFO, message = msg_ws_connected\<rparr> s in
      case stompClient s1 of
        Some c \<Rightarrow> s1\<lparr>subscriptions := subscriptions s1 @ [(c, requestId)]\<rparr>
      | None \<Rightarrow> s1)"

definition onMessage ::
  "(LogEntry \<Rightarrow> state \<Rightarrow> state) \<Rightarrow> (state \<Rightarrow> state) \<Rightarrow> LogEntry \<Rightarrow> state \<Rightarrow> state" where
  "onMessage onLogReceived onAnalysisComplete logEntry s =
     (let s1 = onLogReceived logEntry s in
      if startsWith (message logEntry) completion_marker \<or> level logEntry = ERROR
      then disconnectWebSocket (onAnalysisComplete s1)
      else s1)"

definition onStompError ::
  "(LogEntry \<Rightarrow> state \<Rightarrow> state) \<Rightarrow> (state \<Rightarrow> state) \<Rightarrow> state \<Rightarrow> state" where
  "onStompError onLogReceived onAnalysisComplete s =
     onAnalysisComplete
       (onLogReceived \<lparr>level = ERROR, message = msg_stomp_error\<rparr>
          (s\<lparr>console := console s @ [msg_console_stomp_error]\<rparr>))"

section \<open>The application handlers\<close>

definition addLog :: "LogEntry \<Rightarrow> state \<Rightarrow> state" where
  "addLog e s = s\<lparr>logs := logs s @ [e]\<rparr>"

text \<open>
  The table of \<open>getStatusMessage\<close>. Its fallback \<open>|| status\<close> is never taken: every
  status has an entry and no entry is empty.
\<close>

fun getStatusMessage :: "status \<Rightarrow> jstring" where
  "getStatusMessage PENDING = msg_PENDING"
| "getStatusMessage CLONING = msg_CLONING"
| "getStatusMessage ANALYZING = msg_ANALYZING"
| "getStatusMessage COMPLETED = msg_COMPLETED"
| "getStatusMessage FAILED = msg_FAILED"

text \<open>The callbacks that \<open>handleAnalysisStart\<close> passes to the two services.\<close>

definition onLogReceived :: "LogEntry \<Rightarrow> state \<Rightarrow> state" where
  "onLogReceived logEntry s = addLog logEntry s"

definition onAnalysisComplete :: "state \<Rightarrow> state" where
  "onAnalysisComplete s = addLog \<lparr>level = INFO, message = msg_ws_closed\<rparr> s"

definition onStatusUpdate :: "AnalysisStatus \<Rightarrow> state \<Rightarrow> state" where
  "onStatusUpdate st s =
     (let s1 = s\<lparr>analysisStatus := Some (status st)\<rparr>;
          statusMsg = getStatusMessage (status st)
      in if logs s1 \<noteq> [] \<and> message (last (logs s1)) = statusMsg then s1
         else s1\<lparr>logs := logs s1 @ [\<lparr>level = INFO, message = statusMsg\<rparr>]\<rparr>)"

text \<open>The \<open>catch\<close> and \<open>finally\<close> blocks shared by both handlers.\<close>

definition catch_finally :: "exn \<Rightarrow> state \<Rightarrow> state" where
  "catch_finally error s =
     (let errorMessage = (case error of Error m \<Rightarrow> m | NonError \<Rightarrow> msg_unknown_error);
          s1 = addLog \<lparr>level = ERROR, message = msg_error_head @ errorMessage\<rparr> s
      in s1\<lparr>analysisStatus := Some FAILED, isAnalyzing := False, task := Idle\<rparr>)"

subsection \<open>handleAnalysisStart\<close>

text \<open>From the call to the first \<open>await\<close>: the guard, the resets, the submit request.\<close>

definition handleAnalysisStart :: "jstring \<Rightarrow> state \<Rightarrow> state" where
  "handleAnalysisStart url s =
     (if isAnalyzing s then s
      else
        let s1 = s\<lparr>isAnalyzing := True, logs := [], results := [], currentRequestId := None,
                   analysisStatus := None\<rparr>;
            s2 = addLog \<lparr>level = INFO, message = msg_sending\<rparr> s1
        in s2\<lparr>net := net s2 @ [POST_analyze url], task := AwaitSubmit\<rparr>)"

text \<open>
  When \<open>startAnalysis\<close> settles: the identifier is recorded, the channel is opened and
  \<open>pollStatus\<close> is entered (its first request follows its first wait).
\<close>

definition afterStartAnalysis :: "json_id fetched \<Rightarrow> state \<Rightarrow> state" where
  "afterStartAnalysis f s =
     (case startAnalysis f of
        Inl e \<Rightarrow> catch_finally e s
      | Inr requestId \<Rightarrow>
          let s1 = s\<lparr>currentRequestId := Some requestId\<rparr>;
              s2 = addLog \<lparr>level = INFO,
                            message = msg_created_head @ requestId @ msg_created_tail\<rparr> s1;
              s3 = connectWebSocket requestId s2;
              s4 = addLog \<lparr>level = INFO, message = msg_checking\<rparr> s3
          in s4\<lparr>task := Polling requestId\<rparr>)"

text \<open>
  One turn of the polling loop inside the handler: the status request is issued when the
  wait ends and \<open>f\<close> is what it receives. On \<open>COMPLETED\<close> the handler goes on to
  \<open>fetchResults\<close>; a thrown error reaches the \<open>catch\<close> block.
\<close>

definition afterStatusCheck :: "jstring \<Rightarrow> AnalysisStatus fetched \<Rightarrow> state \<Rightarrow> state" where
  "afterStatusCheck requestId f s =
     (case pollTurn (Some onStatusUpdate) f (s\<lparr>net := net s @ [GET_status requestId]\<rparr>) of
        (s1, None) \<Rightarrow> s1
      | (s1, Some (Inl e)) \<Rightarrow> catch_finally e s1
      | (s1, Some (Inr final)) \<Rightarrow>
          let s2 = addLog \<lparr>level = INFO, message = msg_loading\<rparr> s1
          in s2\<lparr>net := net s2 @ [GET_results requestId], task := AwaitResults requestId\<rparr>)"

definition afterFetchResults :: "AnalysisResult list fetched \<Rightarrow> state \<Rightarrow> state" where
  "afterFetchResults f s =
     (case fetchResults f of
        Inl e \<Rightarrow> catch_finally e s
      | Inr analysisResults \<Rightarrow>
          let s1 = s\<lparr>results := analysisResults\<rparr>;
              s2 = addLog \<lparr>level = INFO,
                            message = msg_found_head @ show_nat (length analysisResults)
                                      @ msg_found_tail\<rparr> s1
          in s2\<lparr>isAnalyzing := False, task := Idle\<rparr>)"

subsection \<open>handleCodeAnalysis\<close>

definition handleCodeAnalysis :: "jstring \<Rightarrow> jstring option \<Rightarrow> state \<Rightarrow> state" where
  "handleCodeAnalysis code fileName s =
     (if isAnalyzing s then s
      else
        let s1 = s\<lparr>isAnalyzing := True, logs := [], results := [], analysisStatus := None\<rparr>;
            s2 = addLog \<lparr>level = INFO, message = msg_code_start\<rparr> s1;
            s3 = (case fileName of
                    Some name \<Rightarrow>
                      if name \<noteq> [] then addLog \<lparr>level = INFO, message = msg_file_head @ name\<rparr> s2
                      else s2
                  | None \<Rightarrow> s2);
            s4 = addLog \<lparr>level = INFO, message = msg_compile_check\<rparr> s3
        in s4\<lparr>net := net s4 @ [CALL_analyzeCode code fileName], task := AwaitCode\<rparr>)"

definition scoreEmoji :: "int \<Rightarrow> jstring" where
  "scoreEmoji q = (if q \<ge> 80 then emoji_star else if q \<ge> 60 then emoji_thumb else emoji_warn)"

definition toResults :: "Violation list \<Rightarrow> AnalysisResult list" where
  "toResults vs =
     map (\<lambda>(index, v). \<lparr>id_r = int index, filePath = filePath_v v, lineNumber = lineNumber_v v,
                          severity = severity_v v, message_r = message_v v\<rparr>)
         (enumerate 0 vs)"

definition afterAnalyzeCode :: "exn + CodeAnalysisResult \<Rightarrow> state \<Rightarrow> state" where
  "afterAnalyzeCode r s =
     (case r of
        Inl e \<Rightarrow> catch_finally e s
      | Inr result \<Rightarrow>
          if \<not> success result then
            (addLog \<lparr>level = ERROR,
                     message = msg_error_head
                               @ (case errorMessage_c result of Some m \<Rightarrow> m
                                  | None \<Rightarrow> msg_undefined)\<rparr> s)
              \<lparr>analysisStatus := Some FAILED, isAnalyzing := False, task := Idle\<rparr>
          else
            let s1 = (case compilationSuccess result of
                        None \<Rightarrow> s
                      | Some True \<Rightarrow> addLog \<lparr>level = INFO, message = msg_compiles\<rparr> s
                      | Some False \<Rightarrow>
                          fold (\<lambda>error. addLog \<lparr>level = ERROR,
                                   message = msg_line_head @ show_int (lineNumber_e error)
                                             @ [58, 32] @ message_e error\<rparr>)
                               (compilationErrors result)
                               (addLog \<lparr>level = WARNING, message = msg_not_compiles\<rparr> s));
                s2 = addLog \<lparr>level = INFO, message = msg_checkstyle\<rparr> s1;
                s3 = s2\<lparr>results := toResults (violations result)\<rparr>;
                s4 = (case qualityScore result of
                        None \<Rightarrow> s3
                      | Some q \<Rightarrow>
                          addLog \<lparr>level = INFO,
                                  message = scoreEmoji q @ msg_score_mid @ show_int q
                                            @ msg_score_tail\<rparr> s3);
                s5 = addLog \<lparr>level = INFO,
                              message = msg_done_head @ show_int (violationCount result)
                                        @ msg_done_tail\<rparr> s4
            in s5\<lparr>analysisStatus := Some COMPLETED, isAnalyzing := False, task := Idle\<rparr>)"

section \<open>The event loop\<close>

text \<open>
  The events that the single-threaded event loop dispatches: a call of a handler by the
  form, the settling of the call a handler awaits, and the three callbacks of a STOMP
  client. The reply to a call that no handler awaits does not occur, so it changes
  nothing. A subscription callback runs for every frame delivered on its subscription;
  \<open>deactivate\<close> only requests the disconnection, so frames may still be delivered
  after it.
\<close>

datatype event =
  StartUrl jstring
| StartCode jstring "jstring option"
| SubmitReply "json_id fetched"
| PollReply "AnalysisStatus fetched"
| ResultsReply "AnalysisResult list fetched"
| CodeReply "exn + CodeAnalysisResult"
| WsConnect nat
| WsMessage nat LogEntry
| WsError nat

fun step :: "event \<Rightarrow> state \<Rightarrow> state" where
  "step (StartUrl url) s = handleAnalysisStart url s"
| "step (StartCode code fileName) s = handleCodeAnalysis code fileName s"
| "step (SubmitReply f) s = (case task s of AwaitSubmit \<Rightarrow> afterStartAnalysis f s | _ \<Rightarrow> s)"
| "step (PollReply f) s =
     (case task s of Polling requestId \<Rightarrow> afterStatusCheck requestId f s | _ \<Rightarrow> s)"
| "step (ResultsReply f) s =
     (case task s of AwaitResults requestId \<Rightarrow> afterFetchResults f s | _ \<Rightarrow> s)"
| "step (CodeReply r) s = (case task s of AwaitCode \<Rightarrow> afterAnalyzeCode r s | _ \<Rightarrow> s)"
| "step (WsConnect c) s =
     (if c < length (clients s) \<and> active (clients s ! c)
      then onConnect (requestId_c (clients s ! c)) onLogReceived s else s)"
| "step (WsMessage i logEntry) s =
     (if i < length (subscriptions s)
      then onMessage onLogReceived onAnalysisComplete logEntry s else s)"
| "step (WsError c) s =
     (if c < length (clients s) then onStompError onLogReceived onAnalysisComplete s else s)"

definition run :: "event list \<Rightarrow> state \<Rightarrow> state" where
  "run evs s = fold step evs s"

fun is_channel :: "event \<Rightarrow> bool" where
  "is_channel (WsConnect c) = True"
| "is_channel (WsMessage i e) = True"
| "is_channel (WsError c) = True"
| "is_channel _ = False"

fun is_poll :: "event \<Rightarrow> bool" where
  "is_poll (PollReply f) = True"
| "is_poll _ = False"

fun poll_replies :: "event list \<Rightarrow> AnalysisStatus fetched list" where
  "poll_replies [] = []"
| "poll_replies (PollReply f # evs) = f # poll_replies evs"
| "poll_replies (e # evs) = poll_replies evs"

text \<open>An inline-code submission: the call of the handler and the settling of \<open>analyzeCode\<close>.\<close>

definition code_session :: "jstring \<Rightarrow> jstring option \<Rightarrow> exn + CodeAnalysisResult \<Rightarrow> state \<Rightarrow> state" where
  "code_session code fileName r s = run [StartCode code fileName, CodeReply r] s"

text \<open>
  What an observer can count: \<open>onAnalysisComplete\<close> of the application appends its
  closing line to the log, and every call of \<open>disconnectWebSocket\<close> writes its line
  to the console.
\<close>

definition completion_signals :: "state \<Rightarrow> nat" where
  "completion_signals s =
     length (filter (\<lambda>l. l = \<lparr>level = INFO, message = msg_ws_closed\<rparr>) (logs s))"

definition close_calls :: "state \<Rightarrow> nat" where
  "close_calls s = length (filter (\<lambda>l. l = msg_console_disconnected) (console s))"

definition is_completion :: "LogEntry \<Rightarrow> bool" where
  "is_completion logEntry =
     (startsWith (message logEntry) completion_marker \<or> level logEntry = ERROR)"

text \<open>
  Concrete sessions: the three statuses in progress; the state after a repository
  submission was accepted with identifier \<open>1\<close> and its channel connected; a first
  session that ran to its results while its channel received no closing message.
\<close>

definition polling_prefix :: "AnalysisStatus list" where
  "polling_prefix =
     [status_object PENDING None, status_object CLONING None, status_object ANALYZING None]"

definition polling_state :: state where
  "polling_state = run [StartUrl [104], SubmitReply (ok_json (JString [49])), WsConnect 0] init"

definition finished_session :: "event list" where
  "finished_session =
     [StartUrl [104], SubmitReply (ok_json (JString [49])), WsConnect 0,
      PollReply (status_response (status_object COMPLETED None)), ResultsReply (ok_json [])]"


section \<open>Auxiliary lemmas\<close>


lemma pollTurn_status_response:
  "pollTurn cb (status_response st) s =
     (notify cb st s,
      if status st = COMPLETED then Some (Inr st)
      else if status st = FAILED
      then Some (Inl (Error (or_default (errorMessage st) msg_analysis_failed)))
      else None)"
  by (simp add: pollTurn_def checkStatus_def status_response_def Let_def)

lemma pollStatus_in_progress:
  "\<forall>st \<in> set pre. in_progress st \<Longrightarrow>
   pollStatus cb (map status_response pre @ fs) s =
     (case pollStatus cb fs (fold (notify cb) pre s) of (s', n, r) \<Rightarrow> (s', length pre + n, r))"
proof (induction pre arbitrary: s)
  case Nil
  then show ?case by (simp split: prod.splits)
next
  case (Cons st pre)
  then have "status st \<noteq> COMPLETED" "status st \<noteq> FAILED"
    by (auto simp: in_progress_def)
  with Cons show ?case
    by (simp add: pollTurn_status_response split: prod.splits)
qed

lemma pollStatus_terminal:
  "status t = COMPLETED \<or> status t = FAILED \<Longrightarrow>
   pollStatus cb (status_response t # rest) s =
     (notify cb t s, 1,
      if status t = COMPLETED then Some (Inr t)
      else Some (Inl (Error (or_default (errorMessage t) msg_analysis_failed))))"
  by (auto simp add: pollTurn_status_response)

lemma pollStatus_reaches_terminal:
  assumes "\<forall>st \<in> set pre. in_progress st" and "status t = COMPLETED \<or> status t = FAILED"
  shows "pollStatus cb (map status_response pre @ status_response t # rest) s =
           (notify cb t (fold (notify cb) pre s), Suc (length pre),
            if status t = COMPLETED then Some (Inr t)
            else Some (Inl (Error (or_default (errorMessage t) msg_analysis_failed))))"
  unfolding pollStatus_in_progress [OF assms(1)] pollStatus_terminal [OF assms(2)]
  by simp

lemma pollStatus_still_polling:
  assumes "\<forall>st \<in> set pre. in_progress st"
  shows "pollStatus cb (map status_response pre) s = (fold (notify cb) pre s, length pre, None)"
  using pollStatus_in_progress [OF assms, of cb "[]" s] by simp

lemma run_append: "run (xs @ ys) s = run ys (run xs s)"
  by (simp add: run_def)

lemma run_Cons: "run (e # evs) s = run evs (step e s)"
  by (simp add: run_def)

lemma run_Nil: "run [] s = s"
  by (simp add: run_def)

lemmas channel_defs = onConnect_def onMessage_def onStompError_def onLogReceived_def
  onAnalysisComplete_def addLog_def disconnectWebSocket_def Let_def

lemma channel_step_frame:
  assumes "is_channel e"
  shows "task (step e s) = task s" "net (step e s) = net s"
    "isAnalyzing (step e s) = isAnalyzing s" "analysisStatus (step e s) = analysisStatus s"
    "results (step e s) = results s" "currentRequestId (step e s) = currentRequestId s"
  using assms by (cases e; simp add: channel_defs split: option.splits)+

lemma channel_run_frame:
  assumes "\<forall>e \<in> set evs. is_channel e"
  shows "task (run evs s) = task s \<and> net (run evs s) = net s
    \<and> isAnalyzing (run evs s) = isAnalyzing s \<and> analysisStatus (run evs s) = analysisStatus s
    \<and> results (run evs s) = results s \<and> currentRequestId (run evs s) = currentRequestId s"
  using assms
  by (induction evs arbitrary: s) (simp_all add: run_Nil run_Cons channel_step_frame)

lemma poll_step_in_progress:
  assumes "task s = Polling requestId" and "in_progress st"
  shows "step (PollReply (status_response st)) s
           = onStatusUpdate st (s\<lparr>net := net s @ [GET_status requestId]\<rparr>)"
  using assms
  by (auto simp add: afterStatusCheck_def pollTurn_status_response notify_def in_progress_def)

lemma onStatusUpdate_frame:
  "task (onStatusUpdate st s) = task s" "net (onStatusUpdate st s) = net s"
  "isAnalyzing (onStatusUpdate st s) = isAnalyzing s"
  "analysisStatus (onStatusUpdate st s) = Some (status st)"
  by (simp_all add: onStatusUpdate_def Let_def)

lemma poll_step_completed:
  assumes "task s = Polling requestId" and "status t = COMPLETED"
  shows "step (PollReply (status_response t)) s
           = (addLog \<lparr>level = INFO, message = msg_loading\<rparr>
                (onStatusUpdate t (s\<lparr>net := net s @ [GET_status requestId]\<rparr>)))
             \<lparr>net := net s @ [GET_status requestId, GET_results requestId],
              task := AwaitResults requestId\<rparr>"
  using assms
  by (simp add: afterStatusCheck_def pollTurn_status_response notify_def addLog_def
      onStatusUpdate_frame Let_def)

lemma poll_step_failed:
  assumes "task s = Polling requestId" and "status t = FAILED"
  shows "step (PollReply (status_response t)) s
           = catch_finally (Error (or_default (errorMessage t) msg_analysis_failed))
               (onStatusUpdate t (s\<lparr>net := net s @ [GET_status requestId]\<rparr>))"
  using assms
  by (simp add: afterStatusCheck_def pollTurn_status_response notify_def)

lemma catch_finally_frame:
  "task (catch_finally e s) = Idle" "net (catch_finally e s) = net s"
  "isAnalyzing (catch_finally e s) = False" "analysisStatus (catch_finally e s) = Some FAILED"
  "results (catch_finally e s) = results s"
  by (simp_all add: catch_finally_def addLog_def Let_def)

lemma polling_run:
  assumes "task s = Polling requestId"
    and "\<forall>e \<in> set evs. is_channel e \<or> is_poll e"
    and "poll_replies evs = map status_response (pre @ [t])"
    and "\<forall>st \<in> set pre. in_progress st"
    and "status t = COMPLETED \<or> status t = FAILED"
  shows "net (run evs s) = net s @ replicate (Suc (length pre)) (GET_status requestId)
                           @ (if status t = COMPLETED then [GET_results requestId] else [])
       \<and> task (run evs s) = (if status t = COMPLETED then AwaitResults requestId else Idle)"
  using assms
proof (induction evs arbitrary: s pre)
  case Nil
  then show ?case by simp
next
  case (Cons e evs)
  show ?case
  proof (cases "is_channel e")
    case True
    then have pr: "poll_replies (e # evs) = poll_replies evs"
      by (cases e) simp_all
    have "task (step e s) = Polling requestId"
      using True Cons.prems(1) by (simp add: channel_step_frame)
    from Cons.IH [OF this, of pre] Cons.prems pr True
    show ?thesis by (simp add: run_Cons channel_step_frame)
  next
    case False
    with Cons.prems(2) obtain f where e: "e = PollReply f"
      by (cases e) auto
    with Cons.prems(3) have f: "f # poll_replies evs = map status_response (pre @ [t])"
      by simp
    show ?thesis
    proof (cases pre)
      case Nil
      with f have ft: "f = status_response t" and rest: "poll_replies evs = []" by simp_all
      have chan: "\<forall>e \<in> set evs. is_channel e"
      proof
        fix x assume x: "x \<in> set evs"
        show "is_channel x"
        proof (rule ccontr)
          assume "\<not> is_channel x"
          with Cons.prems(2) x obtain g where "x = PollReply g" by (cases x) auto
          with x have "poll_replies evs \<noteq> []"
            by (induction evs rule: poll_replies.induct) auto
          with rest show False by simp
        qed
      qed
      from Cons.prems(5) show ?thesis
      proof
        assume c: "status t = COMPLETED"
        have st: "step e s
           = (addLog \<lparr>level = INFO, message = msg_loading\<rparr>
                (onStatusUpdate t (s\<lparr>net := net s @ [GET_status requestId]\<rparr>)))
             \<lparr>net := net s @ [GET_status requestId, GET_results requestId],
              task := AwaitResults requestId\<rparr>"
          unfolding e ft by (rule poll_step_completed [OF Cons.prems(1) c])
        show ?thesis
          using channel_run_frame [OF chan, of "step e s"] c Nil
          by (simp add: run_Cons st)
      next
        assume c: "status t = FAILED"
        have st: "step e s
           = catch_finally (Error (or_default (errorMessage t) msg_analysis_failed))
               (onStatusUpdate t (s\<lparr>net := net s @ [GET_status requestId]\<rparr>))"
          unfolding e ft by (rule poll_step_failed [OF Cons.prems(1) c])
        show ?thesis
          using channel_run_frame [OF chan, of "step e s"] c Nil
          by (simp add: run_Cons st catch_finally_frame onStatusUpdate_frame)
      qed
    next
      case (Cons p pre')
      with f have fp: "f = status_response p" and rest: "poll_replies evs = map status_response (pre' @ [t])"
        by simp_all
      from Cons Cons.prems(4) have ip: "in_progress p" and ip': "\<forall>st \<in> set pre'. in_progress st"
        by simp_all
      have st: "step e s = onStatusUpdate p (s\<lparr>net := net s @ [GET_status requestId]\<rparr>)"
        unfolding e fp by (rule poll_step_in_progress [OF Cons.prems(1) ip])
      have tk: "task (step e s) = Polling requestId"
        using Cons.prems(1) by (simp add: st onStatusUpdate_frame)
      have ev: "\<forall>e \<in> set evs. is_channel e \<or> is_poll e"
        using Cons.prems(2) by simp
      from Cons.IH [OF tk ev rest ip' Cons.prems(5)] Cons
      show ?thesis
        by (simp add: run_Cons st onStatusUpdate_frame replicate_app_Cons_same)
    qed
  qed
qed


lemma polling_run_in_progress:
  assumes "task s = Polling requestId"
    and "\<forall>e \<in> set evs. is_channel e \<or> is_poll e"
    and "poll_replies evs = map status_response pre"
    and "\<forall>st \<in> set pre. in_progress st"
  shows "net (run evs s) = net s @ replicate (length pre) (GET_status requestId)
       \<and> task (run evs s) = Polling requestId"
  using assms
proof (induction evs arbitrary: s pre)
  case Nil
  then show ?case by (simp add: run_Nil)
next
  case (Cons e evs)
  show ?case
  proof (cases "is_channel e")
    case True
    then have pr: "poll_replies (e # evs) = poll_replies evs"
      by (cases e) simp_all
    have "task (step e s) = Polling requestId"
      using True Cons.prems(1) by (simp add: channel_step_frame)
    from Cons.IH [OF this, of pre] Cons.prems pr True
    show ?thesis by (simp add: run_Cons channel_step_frame)
  next
    case False
    with Cons.prems(2) obtain f where e: "e = PollReply f"
      by (cases e) auto
    with Cons.prems(3) obtain p pre' where pre: "pre = p # pre'" and fp: "f = status_response p"
      and rest: "poll_replies evs = map status_response pre'"
      by (cases pre) auto
    from pre Cons.prems(4) have ip: "in_progress p" and ip': "\<forall>st \<in> set pre'. in_progress st"
      by simp_all
    have st: "step e s = onStatusUpdate p (s\<lparr>net := net s @ [GET_status requestId]\<rparr>)"
      unfolding e fp by (rule poll_step_in_progress [OF Cons.prems(1) ip])
    have tk: "task (step e s) = Polling requestId"
      using Cons.prems(1) by (simp add: st onStatusUpdate_frame)
    have ev: "\<forall>e \<in> set evs. is_channel e \<or> is_poll e"
      using Cons.prems(2) by simp
    from Cons.IH [OF tk ev rest ip'] pre
    show ?thesis
      by (simp add: run_Cons st onStatusUpdate_frame replicate_app_Cons_same)
  qed
qed

lemma afterFetchResults_frame:
  "net (afterFetchResults f s) = net s" "task (afterFetchResults f s) = Idle"
  "isAnalyzing (afterFetchResults f s) = False"
  by (simp_all add: afterFetchResults_def catch_finally_frame addLog_def Let_def split: sum.splits)

lemma onStatusUpdate_logs:
  "logs (onStatusUpdate st s) =
     (if logs s \<noteq> [] \<and> message (last (logs s)) = getStatusMessage (status st) then logs s
      else logs s @ [\<lparr>level = INFO, message = getStatusMessage (status st)\<rparr>])"
  by (simp add: onStatusUpdate_def Let_def)

lemma catch_finally_logs:
  "logs (catch_finally (Error m) s) = logs s @ [\<lparr>level = ERROR, message = msg_error_head @ m\<rparr>]"
  by (simp add: catch_finally_def addLog_def Let_def)

lemma notify_Some: "notify (Some f) = f"
  by (rule ext, rule ext) (simp add: notify_def)

lemma pollTurn_no_callback: "fst (pollTurn None f s) = s"
  by (simp add: pollTurn_def notify_def Let_def split: sum.splits)

lemma pollStatus_no_callback: "fst (pollStatus None fs s) = s"
proof (induction fs arbitrary: s)
  case Nil
  then show ?case by simp
next
  case (Cons f fs)
  obtain s' r where t: "pollTurn None f s = (s', r)" by (cases "pollTurn None f s")
  with pollTurn_no_callback [of f s] have s': "s' = s" by simp
  obtain s'' n r' where p: "pollStatus None fs s = (s'', n, r')"
    by (cases "pollStatus None fs s")
  with Cons.IH [of s] have "s'' = s" by simp
  with t s' p show ?case by (cases r) simp_all
qed

lemma fold_snoc: "fold (\<lambda>x acc. acc @ [x]) xs acc = acc @ xs"
  by (induction xs arbitrary: acc) simp_all

lemma fold_addLog:
  "fold (\<lambda>x. addLog (g x)) xs s = s\<lparr>logs := logs s @ map g xs\<rparr>"
  by (induction xs arbitrary: s) (simp_all add: addLog_def)


lemma afterAnalyzeCode_frame:
  "task (afterAnalyzeCode r s) = Idle"
  "\<not> isAnalyzing (afterAnalyzeCode r s)"
  "net (afterAnalyzeCode r s) = net s"
  "currentRequestId (afterAnalyzeCode r s) = currentRequestId s"
  "stompClient (afterAnalyzeCode r s) = stompClient s"
  "clients (afterAnalyzeCode r s) = clients s"
  "subscriptions (afterAnalyzeCode r s) = subscriptions s"
  "analysisStatus (afterAnalyzeCode r s)
     = Some (case r of Inl e \<Rightarrow> FAILED | Inr x \<Rightarrow> if success x then COMPLETED else FAILED)"
  by (simp_all add: afterAnalyzeCode_def catch_finally_def addLog_def fold_addLog Let_def
      split: sum.splits option.splits bool.splits)







lemma onMessage_completion:
  "is_completion e \<Longrightarrow>
   onMessage onLogReceived onAnalysisComplete e s
     = disconnectWebSocket (onAnalysisComplete (onLogReceived e s))"
  by (simp add: onMessage_def is_completion_def Let_def)

lemma onMessage_other:
  "\<not> is_completion e \<Longrightarrow> onMessage onLogReceived onAnalysisComplete e s = onLogReceived e s"
  by (simp add: onMessage_def is_completion_def Let_def)

lemma disconnect_twice:
  "clients (disconnectWebSocket (disconnectWebSocket s)) = clients (disconnectWebSocket s)"
  "stompClient (disconnectWebSocket s) = None"
  by (simp_all add: disconnectWebSocket_def Let_def split: option.splits)

lemma step_keeps_guard:
  "(task s \<noteq> Idle \<longrightarrow> isAnalyzing s) \<Longrightarrow> (task (step e s) \<noteq> Idle \<longrightarrow> isAnalyzing (step e s))"
proof (cases e)
  case (StartUrl url)
  assume "task s \<noteq> Idle \<longrightarrow> isAnalyzing s"
  with StartUrl show ?thesis by (simp add: handleAnalysisStart_def addLog_def Let_def)
next
  case (StartCode code fileName)
  assume "task s \<noteq> Idle \<longrightarrow> isAnalyzing s"
  with StartCode show ?thesis
    by (simp add: handleCodeAnalysis_def addLog_def Let_def split: option.splits)
next
  case (SubmitReply f)
  assume "task s \<noteq> Idle \<longrightarrow> isAnalyzing s"
  with SubmitReply show ?thesis
    by (simp add: afterStartAnalysis_def catch_finally_frame connectWebSocket_def addLog_def
          Let_def split: task.splits sum.splits)
next
  case (PollReply f)
  assume "task s \<noteq> Idle \<longrightarrow> isAnalyzing s"
  with PollReply show ?thesis
    by (auto simp add: afterStatusCheck_def pollTurn_def notify_def catch_finally_frame
          onStatusUpdate_frame addLog_def Let_def split: task.splits sum.splits)
next
  case (ResultsReply f)
  assume "task s \<noteq> Idle \<longrightarrow> isAnalyzing s"
  with ResultsReply show ?thesis
    by (auto simp add: afterFetchResults_frame split: task.splits)
next
  case (CodeReply r)
  assume "task s \<noteq> Idle \<longrightarrow> isAnalyzing s"
  with CodeReply show ?thesis
    by (auto simp add: afterAnalyzeCode_frame split: task.splits)
next
  case (WsConnect c)
  assume "task s \<noteq> Idle \<longrightarrow> isAnalyzing s"
  then show ?thesis using channel_step_frame [of e s] WsConnect by simp
next
  case (WsMessage i l)
  assume "task s \<noteq> Idle \<longrightarrow> isAnalyzing s"
  then show ?thesis using channel_step_frame [of e s] WsMessage by simp
next
  case (WsError c)
  assume "task s \<noteq> Idle \<longrightarrow> isAnalyzing s"
  then show ?thesis using channel_step_frame [of e s] WsError by simp
qed

lemma run_keeps_guard:
  "(task s \<noteq> Idle \<longrightarrow> isAnalyzing s) \<Longrightarrow> (task (run evs s) \<noteq> Idle \<longrightarrow> isAnalyzing (run evs s))"
proof (induction evs arbitrary: s)
  case Nil
  then show ?case by (simp add: run_Nil)
next
  case (Cons e evs)
  from Cons.IH [OF step_keeps_guard [OF Cons.prems]] show ?case by (simp add: run_Cons)
qed

lemma checkStatus_failures:
  "checkStatus (Rejected e) = Inl e"
  "\<not> ok r \<Longrightarrow> checkStatus (Resolved r) = Inl (Error msg_status_error)"
  "ok r \<Longrightarrow> json r = Inl e \<Longrightarrow> checkStatus (Resolved r) = Inl e"
  by (simp_all add: checkStatus_def)

lemma startAnalysis_failures:
  "startAnalysis (Rejected e) = Inl e"
  "\<not> ok r \<Longrightarrow> startAnalysis (Resolved r)
     = Inl (Error (msg_server_error @ show_nat (status_code r) @ [32] @ statusText r
                   @ [46, 32] @ text_body r))"
  "ok r \<Longrightarrow> json r = Inl e \<Longrightarrow> startAnalysis (Resolved r) = Inl e"
  by (simp_all add: startAnalysis_def)

lemma catch_finally_logs_any:
  "logs (catch_finally e s)
     = logs s @ [\<lparr>level = ERROR,
                  message = msg_error_head
                            @ (case e of Error m \<Rightarrow> m | NonError \<Rightarrow> msg_unknown_error)\<rparr>]"
  by (simp add: catch_finally_def addLog_def Let_def)

lemma poll_step_thrown:
  assumes "task s = Polling requestId" and "checkStatus f = Inl e"
  shows "step (PollReply f) s = catch_finally e (s\<lparr>net := net s @ [GET_status requestId]\<rparr>)"
  using assms by (simp add: afterStatusCheck_def pollTurn_def)

lemma submit_thrown:
  assumes "\<not> isAnalyzing s" and "startAnalysis f = Inl e"
  shows "run [StartUrl url, SubmitReply f] s = catch_finally e (handleAnalysisStart url s)"
  using assms by (simp add: run_def handleAnalysisStart_def afterStartAnalysis_def Let_def)

lemmas literal_defs =
  msg_server_error_def msg_status_error_def msg_analysis_failed_def msg_results_error_def
  msg_ws_connected_def completion_marker_def msg_stomp_error_def msg_console_disconnected_def
  msg_PENDING_def msg_CLONING_def msg_ANALYZING_def msg_COMPLETED_def
  msg_FAILED_def msg_sending_def msg_created_head_def msg_created_tail_def
  msg_ws_closed_def msg_checking_def msg_loading_def msg_found_head_def
  msg_found_tail_def msg_error_head_def msg_unknown_error_def msg_code_start_def
  msg_file_head_def msg_compile_check_def msg_compiles_def msg_not_compiles_def
  msg_line_head_def msg_checkstyle_def emoji_star_def emoji_thumb_def
  emoji_warn_def msg_score_mid_def msg_score_tail_def msg_done_head_def
  msg_done_tail_def msg_console_stomp_error_def msg_undefined_def

lemmas service_defs = startAnalysis_def checkStatus_def fetchResults_def pollTurn_def notify_def
  or_default_def status_response_def ok_json_def status_object_def in_progress_def
  startsWith_def is_completion_def

lemmas handler_defs = handleAnalysisStart_def afterStartAnalysis_def afterStatusCheck_def
  afterFetchResults_def handleCodeAnalysis_def afterAnalyzeCode_def catch_finally_def
  onStatusUpdate_def connectWebSocket_def toResults_def scoreEmoji_def code_session_def
  completion_signals_def close_calls_def run_def init_def

section \<open>The claims\<close>

subsection \<open>The polling loop\<close>

text \<open>
  Claim C1. For every sequence of status responses, \<open>pollStatus\<close> keeps polling while
  the status is \<open>PENDING\<close>, \<open>CLONING\<close> or \<open>ANALYZING\<close>: after any number of
  such responses it has made one request for each and has not returned. At the first
  \<open>COMPLETED\<close> response it stops and returns that status. At the first \<open>FAILED\<close>
  response it stops and throws an error whose message is the \<open>errorMessage\<close> of the
  response, or the generic failure message (\<open>msg_analysis_failed\<close>) when the response
  carries none: \<open>null\<close>, or the empty string, which the \<open>||\<close> of the source
  treats as absent too. The responses that follow the terminal one are never requested.
\<close>

theorem pollStatus_outcome:
  assumes "\<forall>st \<in> set pre. in_progress st"
  shows "snd (pollStatus cb (map status_response pre) s) = (length pre, None)
       \<and> (status t = COMPLETED \<longrightarrow>
            snd (pollStatus cb (map status_response pre @ status_response t # rest) s)
              = (Suc (length pre), Some (Inr t)))
       \<and> (status t = FAILED \<longrightarrow>
            snd (pollStatus cb (map status_response pre @ status_response t # rest) s)
              = (Suc (length pre),
                 Some (Inl (Error (case errorMessage t of
                                     None \<Rightarrow> msg_analysis_failed
                                   | Some m \<Rightarrow> if m = [] then msg_analysis_failed else m)))))"
  by (simp add: pollStatus_still_polling [OF assms] pollStatus_reaches_terminal [OF assms]
        or_default_def)

text \<open>
  The test sequence of the repository (\<open>PENDING\<close>, \<open>CLONING\<close>, \<open>ANALYZING\<close>,
  then a terminal status): four requests, and the outcome for \<open>COMPLETED\<close>, for
  \<open>FAILED\<close> with a message, with \<open>null\<close> and with an empty message.
\<close>

theorem pollStatus_outcome_witness:
  "in_progress (status_object PENDING None) \<and> in_progress (status_object CLONING None)
   \<and> in_progress (status_object ANALYZING None)
   \<and> snd (pollStatus None (map status_response polling_prefix) ()) = (3, None)
   \<and> snd (pollStatus None
             (map status_response polling_prefix
              @ status_response (status_object COMPLETED None)
                # [status_response (status_object PENDING None)]) ())
       = (4, Some (Inr (status_object COMPLETED None)))
   \<and> snd (pollStatus None
             (map status_response polling_prefix
              @ status_response (status_object FAILED (Some [110, 111])) # []) ())
       = (4, Some (Inl (Error [110, 111])))
   \<and> snd (pollStatus None
             (map status_response polling_prefix
              @ status_response (status_object FAILED None) # []) ())
       = (4, Some (Inl (Error msg_analysis_failed)))
   \<and> snd (pollStatus None
             (map status_response polling_prefix
              @ status_response (status_object FAILED (Some [])) # []) ())
       = (4, Some (Inl (Error msg_analysis_failed)))"
proof -
  have h: "\<forall>st \<in> set polling_prefix. in_progress st"
    by (simp add: polling_prefix_def service_defs)
  show ?thesis
    using pollStatus_outcome [OF h, of None "()" "status_object COMPLETED None"
            "[status_response (status_object PENDING None)]"]
          pollStatus_outcome [OF h, of None "()" "status_object FAILED (Some [110, 111])" "[]"]
          pollStatus_outcome [OF h, of None "()" "status_object FAILED None" "[]"]
          pollStatus_outcome [OF h, of None "()" "status_object FAILED (Some [])" "[]"]
    by (simp add: polling_prefix_def status_object_def in_progress_def)
qed

text \<open>
  Claim C9. \<open>pollStatus\<close> calls \<open>onStatusUpdate\<close> exactly once for each status
  response, in the order received and including the terminal one: the callback state at the
  end is the callback folded over the statuses received, and a callback that records its
  arguments has recorded exactly those statuses. For a \<open>FAILED\<close> status the callback
  has run when the error is thrown: the state returned with the error contains its effect,
  and in the application the status line of \<open>FAILED\<close> is in the log before the error
  line. Without a callback the state is untouched.
\<close>

theorem pollStatus_callback_once:
  assumes "\<forall>st \<in> set pre. in_progress st"
  shows "fst (pollStatus (Some f) (map status_response pre) s) = fold f pre s
       \<and> (status t = COMPLETED \<or> status t = FAILED \<longrightarrow>
            fst (pollStatus (Some f) (map status_response pre @ status_response t # rest) s)
              = f t (fold f pre s)
          \<and> fst (pollStatus (Some (\<lambda>st seen. seen @ [st]))
                   (map status_response pre @ status_response t # rest) [])
              = pre @ [t])
       \<and> (status t = FAILED \<longrightarrow>
            pollStatus (Some f) (map status_response pre @ status_response t # rest) s
              = (f t (fold f pre s), Suc (length pre),
                 Some (Inl (Error (or_default (errorMessage t) msg_analysis_failed)))))
       \<and> (status t = FAILED \<and> task a = Polling requestId \<longrightarrow>
            logs (step (PollReply (status_response t)) a)
              = logs (onStatusUpdate t a)
                @ [\<lparr>level = ERROR,
                    message = msg_error_head
                              @ or_default (errorMessage t) msg_analysis_failed\<rparr>])
       \<and> fst (pollStatus None fs s) = s"
proof (intro conjI impI)
  show "fst (pollStatus (Some f) (map status_response pre) s) = fold f pre s"
    by (simp add: pollStatus_still_polling [OF assms] notify_Some)
  show "fst (pollStatus None fs s) = s"
    by (rule pollStatus_no_callback)
next
  assume t: "status t = COMPLETED \<or> status t = FAILED"
  show "fst (pollStatus (Some f) (map status_response pre @ status_response t # rest) s)
          = f t (fold f pre s)"
    by (simp add: pollStatus_reaches_terminal [OF assms t] notify_Some)
  show "fst (pollStatus (Some (\<lambda>st seen. seen @ [st]))
               (map status_response pre @ status_response t # rest) [])
          = pre @ [t]"
    by (simp add: pollStatus_reaches_terminal [OF assms t] notify_Some fold_snoc)
next
  assume t: "status t = FAILED"
  then show "pollStatus (Some f) (map status_response pre @ status_response t # rest) s
              = (f t (fold f pre s), Suc (length pre),
                 Some (Inl (Error (or_default (errorMessage t) msg_analysis_failed))))"
    by (simp add: pollStatus_reaches_terminal [OF assms] notify_Some)
next
  assume a: "status t = FAILED \<and> task a = Polling requestId"
  then have tk: "task a = Polling requestId" and t: "status t = FAILED" by simp_all
  show "logs (step (PollReply (status_response t)) a)
              = logs (onStatusUpdate t a)
                @ [\<lparr>level = ERROR,
                    message = msg_error_head
                              @ or_default (errorMessage t) msg_analysis_failed\<rparr>]"
    unfolding poll_step_failed [OF tk t]
    by (simp add: catch_finally_logs onStatusUpdate_logs)
qed

text \<open>
  A recording callback on the sequence \<open>PENDING\<close>, \<open>CLONING\<close>, \<open>ANALYZING\<close>,
  \<open>FAILED\<close>: four calls, the last one with \<open>FAILED\<close>, and the error thrown; in the
  application the log gains the \<open>FAILED\<close> status line and then the error line.
\<close>

theorem pollStatus_callback_once_witness:
  "in_progress (status_object PENDING None) \<and> in_progress (status_object CLONING None)
   \<and> in_progress (status_object ANALYZING None)
   \<and> fst (pollStatus (Some (\<lambda>st seen. seen @ [status st])) (map status_response polling_prefix) [])
       = [PENDING, CLONING, ANALYZING]
   \<and> pollStatus (Some (\<lambda>st seen. seen @ [status st]))
        (map status_response polling_prefix
         @ status_response (status_object FAILED None)
           # [status_response (status_object COMPLETED None)]) []
       = ([PENDING, CLONING, ANALYZING, FAILED], 4, Some (Inl (Error msg_analysis_failed)))
   \<and> fst (pollStatus (Some (\<lambda>st seen. seen @ [status st]))
        (map status_response polling_prefix
         @ status_response (status_object COMPLETED None) # []) [])
       = [PENDING, CLONING, ANALYZING, COMPLETED]
   \<and> task polling_state = Polling [49]
   \<and> logs (step (PollReply (status_response (status_object FAILED None))) polling_state)
       = logs polling_state
         @ [\<lparr>level = INFO, message = msg_FAILED\<rparr>,
            \<lparr>level = ERROR, message = msg_error_head @ msg_analysis_failed\<rparr>]"
proof -
  have h: "\<forall>st \<in> set polling_prefix. in_progress st"
    by (simp add: polling_prefix_def service_defs)
  show ?thesis
    using pollStatus_callback_once [OF h, of "\<lambda>st seen. seen @ [status st]" "[]"
            "status_object FAILED None" "[status_response (status_object COMPLETED None)]"
            polling_state "[49]" "[]"]
          pollStatus_callback_once [OF h, of "\<lambda>st seen. seen @ [status st]" "[]"
            "status_object COMPLETED None" "[]" polling_state "[49]" "[]"]
    by (simp add: polling_prefix_def polling_state_def handler_defs service_defs channel_defs
          literal_defs)
qed

subsection \<open>The repository session\<close>

text \<open>
  Claim C2. During the polling phase of \<open>handleAnalysisStart\<close>, with the messages and
  callbacks of the real-time channel interleaved in any way among the poll responses: when
  the poll responses are statuses in progress followed by \<open>COMPLETED\<close>, the requests
  issued are one status request per response and then exactly one \<open>fetchResults\<close>
  request, issued after the \<open>COMPLETED\<close> response and not repeated when the results
  arrive; while only statuses in progress have been received no \<open>fetchResults\<close> request
  has been issued; when the poll responses end in \<open>FAILED\<close>, no \<open>fetchResults\<close>
  request is ever issued. (The loop makes no request after a terminal status, so the
  terminal status is the last poll response of a session.)
\<close>

theorem fetchResults_once_after_completed:
  assumes "task s = Polling requestId"
    and "\<forall>e \<in> set evs. is_channel e \<or> is_poll e"
    and "poll_replies evs = map status_response (pre @ [t])"
    and "\<forall>st \<in> set pre. in_progress st"
    and "\<forall>e \<in> set later. is_channel e"
  shows "(status t = COMPLETED \<longrightarrow>
            net (run evs s) = net s @ replicate (Suc (length pre)) (GET_status requestId)
                              @ [GET_results requestId]
          \<and> net (run (evs @ ResultsReply f # later) s) = net (run evs s))
       \<and> (status t = FAILED \<longrightarrow>
            net (run (evs @ later) s)
              = net s @ replicate (Suc (length pre)) (GET_status requestId))
       \<and> (\<forall>before. (\<forall>e \<in> set before. is_channel e \<or> is_poll e)
                     \<and> poll_replies before = map status_response pre
            \<longrightarrow> net (run before s) = net s @ replicate (length pre) (GET_status requestId))"
proof (intro conjI impI allI)
  assume c: "status t = COMPLETED"
  then have r: "net (run evs s) = net s @ replicate (Suc (length pre)) (GET_status requestId)
                  @ [GET_results requestId]"
    and tk: "task (run evs s) = AwaitResults requestId"
    using polling_run [OF assms(1-4), of ] by simp_all
  show "net (run evs s) = net s @ replicate (Suc (length pre)) (GET_status requestId)
          @ [GET_results requestId]"
    by (rule r)
  show "net (run (evs @ ResultsReply f # later) s) = net (run evs s)"
    using channel_run_frame [OF assms(5), of "step (ResultsReply f) (run evs s)"] tk
    by (simp add: run_append run_Cons afterFetchResults_frame)
next
  assume c: "status t = FAILED"
  then show "net (run (evs @ later) s)
               = net s @ replicate (Suc (length pre)) (GET_status requestId)"
    using polling_run [OF assms(1-4)] channel_run_frame [OF assms(5), of "run evs s"]
    by (simp add: run_append)
next
  fix before
  assume "(\<forall>e \<in> set before. is_channel e \<or> is_poll e)
            \<and> poll_replies before = map status_response pre"
  then show "net (run before s) = net s @ replicate (length pre) (GET_status requestId)"
    using polling_run_in_progress [OF assms(1) _ _ assms(4), of before] by simp
qed

text \<open>
  A session whose submission was accepted with identifier \<open>1\<close>: a \<open>PENDING\<close>
  response, a channel message, then \<open>COMPLETED\<close> (one \<open>fetchResults\<close> request at
  the end, also after the results and a later channel message) or \<open>FAILED\<close> (none).
\<close>

theorem fetchResults_once_after_completed_witness:
  "task polling_state = Polling [49]
   \<and> net (run [PollReply (status_response (status_object PENDING None)),
                 WsMessage 0 \<lparr>level = INFO, message = [120]\<rparr>,
                 PollReply (status_response (status_object COMPLETED None))] polling_state)
       = [POST_analyze [104], GET_status [49], GET_status [49], GET_results [49]]
   \<and> net (run ([PollReply (status_response (status_object PENDING None)),
                  WsMessage 0 \<lparr>level = INFO, message = [120]\<rparr>,
                  PollReply (status_response (status_object COMPLETED None))]
                 @ ResultsReply (ok_json []) # [WsMessage 0 \<lparr>level = INFO, message = [121]\<rparr>])
             polling_state)
       = [POST_analyze [104], GET_status [49], GET_status [49], GET_results [49]]
   \<and> net (run ([PollReply (status_response (status_object PENDING None)),
                  WsMessage 0 \<lparr>level = INFO, message = [120]\<rparr>,
                  PollReply (status_response (status_object FAILED None))]
                 @ [WsMessage 0 \<lparr>level = INFO, message = [121]\<rparr>]) polling_state)
       = [POST_analyze [104], GET_status [49], GET_status [49]]
   \<and> net (run [PollReply (status_response (status_object PENDING None))] polling_state)
       = [POST_analyze [104], GET_status [49]]"
proof -
  have h1: "task polling_state = Polling [49]"
    by (simp add: polling_state_def handler_defs service_defs channel_defs)
  have h2: "\<forall>e \<in> set [PollReply (status_response (status_object PENDING None)),
                 WsMessage 0 \<lparr>level = INFO, message = [120]\<rparr>,
                 PollReply (status_response (status_object COMPLETED None))].
              is_channel e \<or> is_poll e"
    by simp
  have h2': "\<forall>e \<in> set [PollReply (status_response (status_object PENDING None)),
                 WsMessage 0 \<lparr>level = INFO, message = [120]\<rparr>,
                 PollReply (status_response (status_object FAILED None))].
              is_channel e \<or> is_poll e"
    by simp
  have h3: "poll_replies [PollReply (status_response (status_object PENDING None)),
                 WsMessage 0 \<lparr>level = INFO, message = [120]\<rparr>,
                 PollReply (status_response (status_object COMPLETED None))]
              = map status_response ([status_object PENDING None] @ [status_object COMPLETED None])"
    by simp
  have h3': "poll_replies [PollReply (status_response (status_object PENDING None)),
                 WsMessage 0 \<lparr>level = INFO, message = [120]\<rparr>,
                 PollReply (status_response (status_object FAILED None))]
              = map status_response ([status_object PENDING None] @ [status_object FAILED None])"
    by simp
  have h4: "\<forall>st \<in> set [status_object PENDING None]. in_progress st"
    by (simp add: service_defs)
  have h5: "\<forall>e \<in> set [WsMessage 0 \<lparr>level = INFO, message = [121]\<rparr>]. is_channel e"
    by simp
  have b: "(\<forall>e \<in> set [PollReply (status_response (status_object PENDING None))].
              is_channel e \<or> is_poll e)
           \<and> poll_replies [PollReply (status_response (status_object PENDING None))]
               = map status_response [status_object PENDING None]"
    by simp
  from fetchResults_once_after_completed [OF h1 h2 h3 h4 h5, of "ok_json []"]
       fetchResults_once_after_completed [OF h1 h2' h3' h4 h5, of "ok_json []"] b h1
  show ?thesis
    by (simp add: polling_state_def handler_defs service_defs channel_defs)
qed

text \<open>
  Claim C5. The status callback of \<open>handleAnalysisStart\<close> compares the status line only
  with the last entry of the log. Two consecutive poll responses with the same status append
  at most one status line: the second call of the callback leaves the log as the first one
  left it. The log after a call is the log before it, with the status line appended unless
  the last entry already has that text; so when a channel message with another text arrives
  between the two responses, the status line is appended again although the log already
  contains it.
\<close>

theorem duplicate_status_suppressed:
  "(status st2 = status st1 \<longrightarrow>
      logs (onStatusUpdate st2 (onStatusUpdate st1 s)) = logs (onStatusUpdate st1 s)
      \<and> length (logs (onStatusUpdate st2 (onStatusUpdate st1 s))) \<le> Suc (length (logs s)))
   \<and> logs (onStatusUpdate st1 s) =
       (if logs s \<noteq> [] \<and> message (last (logs s)) = getStatusMessage (status st1) then logs s
        else logs s @ [\<lparr>level = INFO, message = getStatusMessage (status st1)\<rparr>])
   \<and> (status st2 = status st1 \<and> message e \<noteq> getStatusMessage (status st1) \<longrightarrow>
      logs (onStatusUpdate st2 (onLogReceived e (onStatusUpdate st1 s)))
        = logs (onStatusUpdate st1 s)
          @ [e, \<lparr>level = INFO, message = getStatusMessage (status st1)\<rparr>])
   \<and> (task s = Polling requestId \<and> in_progress st1 \<and> status st2 = status st1 \<longrightarrow>
      logs (run [PollReply (status_response st1), PollReply (status_response st2)] s)
        = logs (onStatusUpdate st1 s))"
proof (intro conjI impI)
  assume "status st2 = status st1"
  then show "logs (onStatusUpdate st2 (onStatusUpdate st1 s)) = logs (onStatusUpdate st1 s)"
    by (simp add: onStatusUpdate_logs)
  then show "length (logs (onStatusUpdate st2 (onStatusUpdate st1 s))) \<le> Suc (length (logs s))"
    by (simp add: onStatusUpdate_logs)
next
  show "logs (onStatusUpdate st1 s) =
       (if logs s \<noteq> [] \<and> message (last (logs s)) = getStatusMessage (status st1) then logs s
        else logs s @ [\<lparr>level = INFO, message = getStatusMessage (status st1)\<rparr>])"
    by (rule onStatusUpdate_logs)
next
  assume "status st2 = status st1 \<and> message e \<noteq> getStatusMessage (status st1)"
  then show "logs (onStatusUpdate st2 (onLogReceived e (onStatusUpdate st1 s)))
        = logs (onStatusUpdate st1 s)
          @ [e, \<lparr>level = INFO, message = getStatusMessage (status st1)\<rparr>]"
    by (simp add: onStatusUpdate_logs onLogReceived_def addLog_def)
next
  assume a: "task s = Polling requestId \<and> in_progress st1 \<and> status st2 = status st1"
  then have ip2: "in_progress st2" by (simp add: in_progress_def)
  have s1: "step (PollReply (status_response st1)) s
              = onStatusUpdate st1 (s\<lparr>net := net s @ [GET_status requestId]\<rparr>)"
    using a by (intro poll_step_in_progress) simp_all
  have tk: "task (onStatusUpdate st1 (s\<lparr>net := net s @ [GET_status requestId]\<rparr>)) = Polling requestId"
    using a by (simp add: onStatusUpdate_frame)
  have s2: "run [PollReply (status_response st1), PollReply (status_response st2)] s
              = step (PollReply (status_response st2)) (step (PollReply (status_response st1)) s)"
    by (simp only: run_Cons run_Nil)
  show "logs (run [PollReply (status_response st1), PollReply (status_response st2)] s)
        = logs (onStatusUpdate st1 s)"
    unfolding s2 s1 poll_step_in_progress [OF tk ip2]
    using a by (simp add: onStatusUpdate_logs)
qed

text \<open>
  Two \<open>PENDING\<close> responses in a row add one status line; with a channel message between
  them the line is added twice.
\<close>

theorem duplicate_status_suppressed_witness:
  "task polling_state = Polling [49] \<and> in_progress (status_object PENDING None)
   \<and> logs (onStatusUpdate (status_object PENDING None)
             (onStatusUpdate (status_object PENDING None) polling_state))
       = logs polling_state @ [\<lparr>level = INFO, message = msg_PENDING\<rparr>]
   \<and> logs (onStatusUpdate (status_object PENDING None)
             (onLogReceived \<lparr>level = INFO, message = [120]\<rparr>
               (onStatusUpdate (status_object PENDING None) polling_state)))
       = logs polling_state
         @ [\<lparr>level = INFO, message = msg_PENDING\<rparr>, \<lparr>level = INFO, message = [120]\<rparr>,
            \<lparr>level = INFO, message = msg_PENDING\<rparr>]
   \<and> logs (run [PollReply (status_response (status_object PENDING None)),
                  PollReply (status_response (status_object PENDING None))] polling_state)
       = logs polling_state @ [\<lparr>level = INFO, message = msg_PENDING\<rparr>]"
  using duplicate_status_suppressed [of "status_object PENDING None" "status_object PENDING None"
          polling_state "\<lparr>level = INFO, message = [120]\<rparr>" "[49]"]
  by (simp add: polling_state_def handler_defs service_defs channel_defs literal_defs)

text \<open>
  Claim C6. Every way in which a status check can fail is fatal for the session. The check
  fails when the request itself is rejected (a network failure), when the response is not a
  success (the error is then \<open>msg_status_error\<close>), and when the body of a successful
  response cannot be parsed. Whatever the failure, \<open>pollStatus\<close> does not catch it and
  does not retry: the loop ends with that error after exactly one request for the failed
  check, whatever responses would follow. In the application the session becomes
  \<open>FAILED\<close>, an \<open>ERROR\<close> entry with the message of the error is appended to the
  log, the handler ends, and no further status request is made.
\<close>

theorem status_check_failure_fatal:
  "checkStatus (Rejected e) = Inl e
   \<and> (\<not> ok r \<longrightarrow> checkStatus (Resolved r) = Inl (Error msg_status_error))
   \<and> (ok r \<and> json r = Inl e \<longrightarrow> checkStatus (Resolved r) = Inl e)
   \<and> (checkStatus f = Inl e \<longrightarrow>
        ((\<forall>st \<in> set pre. in_progress st) \<longrightarrow>
           snd (pollStatus cb (map status_response pre @ f # rest) cs)
             = (Suc (length pre), Some (Inl e)))
      \<and> (task s = Polling requestId \<longrightarrow>
            analysisStatus (step (PollReply f) s) = Some FAILED
          \<and> logs (step (PollReply f) s)
              = logs s
                @ [\<lparr>level = ERROR,
                    message = msg_error_head
                              @ (case e of Error m \<Rightarrow> m | NonError \<Rightarrow> msg_unknown_error)\<rparr>]
          \<and> net (step (PollReply f) s) = net s @ [GET_status requestId]
          \<and> task (step (PollReply f) s) = Idle
          \<and> \<not> isAnalyzing (step (PollReply f) s)
          \<and> step (PollReply g) (step (PollReply f) s) = step (PollReply f) s))
   \<and> (\<not> ok r \<and> task s = Polling requestId \<longrightarrow>
        logs (step (PollReply (Resolved r)) s)
          = logs s @ [\<lparr>level = ERROR, message = msg_error_head @ msg_status_error\<rparr>])"
proof (intro conjI impI)
  show "checkStatus (Rejected e) = Inl e"
    by (rule checkStatus_failures)
next
  assume "\<not> ok r"
  then show "checkStatus (Resolved r) = Inl (Error msg_status_error)"
    by (rule checkStatus_failures)
next
  assume "ok r \<and> json r = Inl e"
  then show "checkStatus (Resolved r) = Inl e"
    by (simp add: checkStatus_failures)
next
  assume c: "checkStatus f = Inl e" and ip: "\<forall>st \<in> set pre. in_progress st"
  have t: "\<And>x. pollTurn cb f x = (x, Some (Inl e))"
    by (simp add: pollTurn_def c)
  show "snd (pollStatus cb (map status_response pre @ f # rest) cs)
          = (Suc (length pre), Some (Inl e))"
    unfolding pollStatus_in_progress [OF ip] by (simp add: t)
next
  assume c: "checkStatus f = Inl e" and tk: "task s = Polling requestId"
  note st = poll_step_thrown [OF tk c]
  show "analysisStatus (step (PollReply f) s) = Some FAILED"
    "net (step (PollReply f) s) = net s @ [GET_status requestId]"
    "task (step (PollReply f) s) = Idle"
    "\<not> isAnalyzing (step (PollReply f) s)"
    unfolding st by (simp_all add: catch_finally_frame)
  show "logs (step (PollReply f) s)
              = logs s
                @ [\<lparr>level = ERROR,
                    message = msg_error_head
                              @ (case e of Error m \<Rightarrow> m | NonError \<Rightarrow> msg_unknown_error)\<rparr>]"
    unfolding st by (simp add: catch_finally_logs_any)
  show "step (PollReply g) (step (PollReply f) s) = step (PollReply f) s"
    unfolding st by (simp add: catch_finally_frame)
next
  assume a: "\<not> ok r \<and> task s = Polling requestId"
  then have c: "checkStatus (Resolved r) = Inl (Error msg_status_error)"
    by (simp add: checkStatus_failures)
  from a have tk: "task s = Polling requestId" by simp
  show "logs (step (PollReply (Resolved r)) s)
          = logs s @ [\<lparr>level = ERROR, message = msg_error_head @ msg_status_error\<rparr>]"
    unfolding poll_step_thrown [OF tk c] by (simp add: catch_finally_logs_any)
qed

text \<open>
  A rejected request, a response with status 500 and an unparsable body, each after three
  statuses in progress and each in a session that is polling.
\<close>

theorem status_check_failure_fatal_witness:
  "task polling_state = Polling [49]
   \<and> in_progress (status_object PENDING None) \<and> in_progress (status_object CLONING None)
   \<and> in_progress (status_object ANALYZING None)
   \<and> checkStatus (Rejected (Error [110])) = Inl (Error [110])
   \<and> checkStatus (Resolved \<lparr>ok = False, status_code = 500, statusText = [], text_body = [],
                            json = Inl NonError\<rparr>)
       = Inl (Error msg_status_error)
   \<and> checkStatus (Resolved \<lparr>ok = True, status_code = 200, statusText = [], text_body = [60],
                            json = Inl (Error [106])\<rparr>)
       = Inl (Error [106])
   \<and> snd (pollStatus None
            (map status_response polling_prefix
             @ Rejected (Error [110]) # [status_response (status_object COMPLETED None)]) ())
       = (4, Some (Inl (Error [110])))
   \<and> snd (pollStatus None
            (map status_response polling_prefix
             @ Resolved \<lparr>ok = False, status_code = 500, statusText = [], text_body = [],
                          json = Inl NonError\<rparr>
               # [status_response (status_object COMPLETED None)]) ())
       = (4, Some (Inl (Error msg_status_error)))
   \<and> analysisStatus (step (PollReply (Rejected (Error [110]))) polling_state) = Some FAILED
   \<and> logs (step (PollReply (Rejected (Error [110]))) polling_state)
       = logs polling_state @ [\<lparr>level = ERROR, message = msg_error_head @ [110]\<rparr>]
   \<and> net (step (PollReply (Rejected (Error [110]))) polling_state)
       = [POST_analyze [104], GET_status [49]]
   \<and> task (step (PollReply (Rejected (Error [110]))) polling_state) = Idle
   \<and> step (PollReply (status_response (status_object COMPLETED None)))
        (step (PollReply (Rejected (Error [110]))) polling_state)
       = step (PollReply (Rejected (Error [110]))) polling_state
   \<and> analysisStatus
        (step (PollReply (Resolved \<lparr>ok = False, status_code = 500, statusText = [],
                                      text_body = [], json = Inl NonError\<rparr>)) polling_state)
       = Some FAILED
   \<and> logs
        (step (PollReply (Resolved \<lparr>ok = False, status_code = 500, statusText = [],
                                      text_body = [], json = Inl NonError\<rparr>)) polling_state)
       = logs polling_state @ [\<lparr>level = ERROR, message = msg_error_head @ msg_status_error\<rparr>]
   \<and> logs
        (step (PollReply (Resolved \<lparr>ok = True, status_code = 200, statusText = [],
                                      text_body = [60], json = Inl (Error [106])\<rparr>))
           polling_state)
       = logs polling_state @ [\<lparr>level = ERROR, message = msg_error_head @ [106]\<rparr>]"
proof -
  let ?bad = "\<lparr>ok = False, status_code = 500, statusText = [], text_body = [],
               json = (Inl NonError :: exn + AnalysisStatus)\<rparr>"
  let ?garbled = "\<lparr>ok = True, status_code = 200, statusText = [], text_body = [60],
                   json = (Inl (Error [106]) :: exn + AnalysisStatus)\<rparr>"
  have c: "checkStatus (Rejected (Error [110])) = Inl (Error [110])"
    "checkStatus (Resolved ?bad) = Inl (Error msg_status_error)"
    "checkStatus (Resolved ?garbled) = Inl (Error [106])"
    by (simp_all add: checkStatus_def)
  have h: "\<not> ok ?bad" "ok ?garbled \<and> json ?garbled = Inl (Error [106])"
    by simp_all
  have p: "\<forall>st \<in> set polling_prefix. in_progress st"
    "in_progress (status_object PENDING None)" "in_progress (status_object CLONING None)"
    "in_progress (status_object ANALYZING None)"
    by (simp_all add: polling_prefix_def service_defs)
  have t: "task polling_state = Polling [49]" "net polling_state = [POST_analyze [104]]"
    by (simp_all add: polling_state_def handler_defs service_defs channel_defs)
  from c h p t
       status_check_failure_fatal [of "Error [110]" ?bad "Rejected (Error [110])"
         polling_prefix None "[status_response (status_object COMPLETED None)]" "()"
         polling_state "[49]" "status_response (status_object COMPLETED None)"]
       status_check_failure_fatal [of "Error msg_status_error" ?bad "Resolved ?bad"
         polling_prefix None "[status_response (status_object COMPLETED None)]" "()"
         polling_state "[49]" "status_response (status_object COMPLETED None)"]
       status_check_failure_fatal [of "Error [106]" ?garbled "Resolved ?garbled"
         polling_prefix None "[status_response (status_object COMPLETED None)]" "()"
         polling_state "[49]" "status_response (status_object COMPLETED None)"]
  show ?thesis
    by (simp add: polling_prefix_def del: step.simps)
qed

text \<open>
  Claim C7. When the submission fails, the session goes straight to \<open>FAILED\<close>. When the
  response is not a success, \<open>startAnalysis\<close> throws an error whose message carries the
  status code, the status text and the body of the response; when the request itself is
  rejected (a network failure) or the body cannot be parsed, it throws that error. Whatever
  the failure, the log is the line of the submission followed by an \<open>ERROR\<close> entry with
  the message of the error; the only request issued is the submission itself; no request
  identifier is recorded and no channel is opened; the handler has ended and no status
  request follows.
\<close>

theorem submit_rejected:
  assumes "\<not> isAnalyzing s"
  shows "startAnalysis (Rejected e) = Inl e
       \<and> (\<not> ok r \<longrightarrow>
            startAnalysis (Resolved r)
              = Inl (Error (msg_server_error @ show_nat (status_code r) @ [32] @ statusText r
                            @ [46, 32] @ text_body r)))
       \<and> (ok r \<and> json r = Inl e \<longrightarrow> startAnalysis (Resolved r) = Inl e)
       \<and> (startAnalysis f = Inl e \<longrightarrow>
            analysisStatus (run [StartUrl url, SubmitReply f] s) = Some FAILED
          \<and> logs (run [StartUrl url, SubmitReply f] s)
              = [\<lparr>level = INFO, message = msg_sending\<rparr>,
                 \<lparr>level = ERROR,
                  message = msg_error_head
                            @ (case e of Error m \<Rightarrow> m | NonError \<Rightarrow> msg_unknown_error)\<rparr>]
          \<and> net (run [StartUrl url, SubmitReply f] s) = net s @ [POST_analyze url]
          \<and> task (run [StartUrl url, SubmitReply f] s) = Idle
          \<and> \<not> isAnalyzing (run [StartUrl url, SubmitReply f] s)
          \<and> currentRequestId (run [StartUrl url, SubmitReply f] s) = None
          \<and> clients (run [StartUrl url, SubmitReply f] s) = clients s
          \<and> step (PollReply g) (run [StartUrl url, SubmitReply f] s)
              = run [StartUrl url, SubmitReply f] s)
       \<and> (\<not> ok r \<longrightarrow>
            logs (run [StartUrl url, SubmitReply (Resolved r)] s)
              = [\<lparr>level = INFO, message = msg_sending\<rparr>,
                 \<lparr>level = ERROR,
                  message = msg_error_head @ msg_server_error @ show_nat (status_code r) @ [32]
                            @ statusText r @ [46, 32] @ text_body r\<rparr>])"
proof (intro conjI impI)
  show "startAnalysis (Rejected e) = Inl e"
    by (rule startAnalysis_failures)
next
  assume "\<not> ok r"
  then show "startAnalysis (Resolved r)
              = Inl (Error (msg_server_error @ show_nat (status_code r) @ [32] @ statusText r
                            @ [46, 32] @ text_body r))"
    by (rule startAnalysis_failures)
next
  assume "ok r \<and> json r = Inl e"
  then show "startAnalysis (Resolved r) = Inl e"
    by (simp add: startAnalysis_failures)
next
  assume c: "startAnalysis f = Inl e"
  note st = submit_thrown [OF assms c]
  show "analysisStatus (run [StartUrl url, SubmitReply f] s) = Some FAILED"
    "task (run [StartUrl url, SubmitReply f] s) = Idle"
    "\<not> isAnalyzing (run [StartUrl url, SubmitReply f] s)"
    unfolding st by (simp_all add: catch_finally_frame)
  show "logs (run [StartUrl url, SubmitReply f] s)
              = [\<lparr>level = INFO, message = msg_sending\<rparr>,
                 \<lparr>level = ERROR,
                  message = msg_error_head
                            @ (case e of Error m \<Rightarrow> m | NonError \<Rightarrow> msg_unknown_error)\<rparr>]"
    unfolding st using assms
    by (simp add: catch_finally_logs_any handleAnalysisStart_def addLog_def Let_def)
  show "net (run [StartUrl url, SubmitReply f] s) = net s @ [POST_analyze url]"
    "currentRequestId (run [StartUrl url, SubmitReply f] s) = None"
    "clients (run [StartUrl url, SubmitReply f] s) = clients s"
    unfolding st using assms
    by (simp_all add: catch_finally_def handleAnalysisStart_def addLog_def Let_def)
  show "step (PollReply g) (run [StartUrl url, SubmitReply f] s)
              = run [StartUrl url, SubmitReply f] s"
    unfolding st by (simp add: catch_finally_frame)
next
  assume n: "\<not> ok r"
  then have c: "startAnalysis (Resolved r)
              = Inl (Error (msg_server_error @ show_nat (status_code r) @ [32] @ statusText r
                            @ [46, 32] @ text_body r))"
    by (rule startAnalysis_failures)
  show "logs (run [StartUrl url, SubmitReply (Resolved r)] s)
              = [\<lparr>level = INFO, message = msg_sending\<rparr>,
                 \<lparr>level = ERROR,
                  message = msg_error_head @ msg_server_error @ show_nat (status_code r) @ [32]
                            @ statusText r @ [46, 32] @ text_body r\<rparr>]"
    unfolding submit_thrown [OF assms c] using assms
    by (simp add: catch_finally_logs_any handleAnalysisStart_def addLog_def Let_def)
qed

text \<open>
  A submission whose request is rejected by the network, and one answered with status 500.
\<close>

theorem submit_rejected_witness:
  "startAnalysis (Rejected (Error [78])) = Inl (Error [78])
   \<and> startAnalysis (Resolved \<lparr>ok = False, status_code = 500, statusText = [69],
                              text_body = [120], json = Inl NonError\<rparr>)
       = Inl (Error (msg_server_error @ show_nat 500 @ [32] @ [69] @ [46, 32] @ [120]))
   \<and> analysisStatus (run [StartUrl [104], SubmitReply (Rejected (Error [78]))] init)
       = Some FAILED
   \<and> logs (run [StartUrl [104], SubmitReply (Rejected (Error [78]))] init)
       = [\<lparr>level = INFO, message = msg_sending\<rparr>,
          \<lparr>level = ERROR, message = msg_error_head @ [78]\<rparr>]
   \<and> net (run [StartUrl [104], SubmitReply (Rejected (Error [78]))] init)
       = [POST_analyze [104]]
   \<and> task (run [StartUrl [104], SubmitReply (Rejected (Error [78]))] init) = Idle
   \<and> clients (run [StartUrl [104], SubmitReply (Rejected (Error [78]))] init) = []
   \<and> step (PollReply (status_response (status_object PENDING None)))
        (run [StartUrl [104], SubmitReply (Rejected (Error [78]))] init)
       = run [StartUrl [104], SubmitReply (Rejected (Error [78]))] init
   \<and> analysisStatus
        (run [StartUrl [104],
              SubmitReply (Resolved \<lparr>ok = False, status_code = 500, statusText = [69],
                                       text_body = [120], json = Inl NonError\<rparr>)] init)
       = Some FAILED
   \<and> logs
        (run [StartUrl [104],
              SubmitReply (Resolved \<lparr>ok = False, status_code = 500, statusText = [69],
                                       text_body = [120], json = Inl NonError\<rparr>)] init)
       = [\<lparr>level = INFO, message = msg_sending\<rparr>,
          \<lparr>level = ERROR,
           message = msg_error_head @ msg_server_error @ show_nat 500 @ [32] @ [69] @ [46, 32]
                     @ [120]\<rparr>]
   \<and> net
        (run [StartUrl [104],
              SubmitReply (Resolved \<lparr>ok = False, status_code = 500, statusText = [69],
                                       text_body = [120], json = Inl NonError\<rparr>)] init)
       = [POST_analyze [104]]"
proof -
  let ?bad = "\<lparr>ok = False, status_code = 500, statusText = [69], text_body = [120],
               json = (Inl NonError :: exn + json_id)\<rparr>"
  have i: "\<not> isAnalyzing init" "net init = []" "clients init = []"
    by (simp_all add: init_def)
  have h: "\<not> ok ?bad"
    by simp
  have c: "startAnalysis (Rejected (Error [78])) = Inl (Error [78])"
    "startAnalysis (Resolved ?bad)
       = Inl (Error (msg_server_error @ show_nat 500 @ [32] @ [69] @ [46, 32] @ [120]))"
    by (simp_all add: startAnalysis_def)
  from i h c
       submit_rejected [OF i(1), of "Error [78]" ?bad "Rejected (Error [78])" "[104]"
         "status_response (status_object PENDING None)"]
       submit_rejected [OF i(1),
         of "Error (msg_server_error @ show_nat 500 @ [32] @ [69] @ [46, 32] @ [120])" ?bad
            "Resolved ?bad" "[104]" "status_response (status_object PENDING None)"]
  show ?thesis
    by (simp del: step.simps)
qed

text \<open>
  Claim C10. While an analysis is in progress (\<open>isAnalyzing\<close> is true) a call of
  \<open>handleAnalysisStart\<close> or of \<open>handleCodeAnalysis\<close> returns at once and leaves the
  whole state as it was: the log, the results, the status, the request identifier, and the
  list of requests issued.
\<close>

theorem guard_while_analyzing:
  "isAnalyzing s \<Longrightarrow>
     handleAnalysisStart url s = s \<and> handleCodeAnalysis code fileName s = s
     \<and> step (StartUrl url) s = s \<and> step (StartCode code fileName) s = s"
  by (simp add: handleAnalysisStart_def handleCodeAnalysis_def)

text \<open>
  A second submission, by either form, right after a first one.
\<close>

theorem guard_while_analyzing_witness:
  "isAnalyzing (run [StartUrl [104]] init)
   \<and> step (StartUrl [105]) (run [StartUrl [104]] init) = run [StartUrl [104]] init
   \<and> step (StartCode [99] None) (run [StartUrl [104]] init) = run [StartUrl [104]] init
   \<and> net (step (StartUrl [105]) (run [StartUrl [104]] init)) = [POST_analyze [104]]"
  using guard_while_analyzing [of "run [StartUrl [104]] init" "[105]" "[99]" None]
  by (simp add: handler_defs addLog_def)

text \<open>
  Claim C3, as amended. At most one handler runs at a time. In every state that the
  application can reach, while a submission, a polling loop, a result fetch or a code
  analysis is pending, \<open>isAnalyzing\<close> holds and a request to start a new session, by
  URL or by inline code, changes nothing. So a new submission is issued only after the
  polling loop of the previous session has ended. Nothing is stated about the real-time
  channel of an earlier session.
\<close>

theorem one_handler_at_a_time:
  "task (run evs init) \<noteq> Idle \<longrightarrow>
     isAnalyzing (run evs init)
     \<and> step (StartUrl url) (run evs init) = run evs init
     \<and> step (StartCode code fileName) (run evs init) = run evs init"
proof
  assume "task (run evs init) \<noteq> Idle"
  with run_keeps_guard [of init evs] have "isAnalyzing (run evs init)"
    by (simp add: init_def)
  then show "isAnalyzing (run evs init)
     \<and> step (StartUrl url) (run evs init) = run evs init
     \<and> step (StartCode code fileName) (run evs init) = run evs init"
    by (simp add: handleAnalysisStart_def handleCodeAnalysis_def)
qed

text \<open>
  A session that is polling ignores both kinds of start request.
\<close>

theorem one_handler_at_a_time_witness:
  "task (run [StartUrl [104], SubmitReply (ok_json (JString [49]))] init) = Polling [49]
   \<and> isAnalyzing (run [StartUrl [104], SubmitReply (ok_json (JString [49]))] init)
   \<and> step (StartUrl [105]) (run [StartUrl [104], SubmitReply (ok_json (JString [49]))] init)
       = run [StartUrl [104], SubmitReply (ok_json (JString [49]))] init
   \<and> step (StartCode [99] None)
        (run [StartUrl [104], SubmitReply (ok_json (JString [49]))] init)
       = run [StartUrl [104], SubmitReply (ok_json (JString [49]))] init"
proof -
  have t: "task (run [StartUrl [104], SubmitReply (ok_json (JString [49]))] init) = Polling [49]"
    by (simp add: handler_defs service_defs channel_defs)
  from one_handler_at_a_time [of "[StartUrl [104], SubmitReply (ok_json (JString [49]))]"
         "[105]" "[99]" None] t
  show ?thesis by simp
qed

text \<open>
  Claim C3 as stated does not hold: starting a new session tears nothing down. A start
  request made while the first session is polling is ignored, the channel stays open and the
  next poll of the first session still appends its status line. After a first session has
  run to its results without a closing message on its channel, a second submission begins
  (its log holds only the submission line) while the client of the first session is still
  the singleton, still active and subscribed, and a message on that subscription is appended
  to the log of the second session.
\<close>

theorem no_teardown_counterexample:
  "task polling_state = Polling [49]
   \<and> step (StartUrl [105]) polling_state = polling_state
   \<and> stompClient (step (StartUrl [105]) polling_state) = Some 0
   \<and> logs (run [StartUrl [105], PollReply (status_response (status_object CLONING None))]
             polling_state)
       = logs polling_state @ [\<lparr>level = INFO, message = msg_CLONING\<rparr>]
   \<and> task (run (finished_session @ [StartUrl [105]]) init) = AwaitSubmit
   \<and> logs (run (finished_session @ [StartUrl [105]]) init)
       = [\<lparr>level = INFO, message = msg_sending\<rparr>]
   \<and> stompClient (run (finished_session @ [StartUrl [105]]) init) = Some 0
   \<and> clients (run (finished_session @ [StartUrl [105]]) init)
       = [\<lparr>requestId_c = [49], active = True\<rparr>]
   \<and> subscriptions (run (finished_session @ [StartUrl [105]]) init) = [(0, [49])]
   \<and> logs (run (finished_session
                 @ [StartUrl [105], WsMessage 0 \<lparr>level = INFO, message = [111, 108, 100]\<rparr>])
             init)
       = [\<lparr>level = INFO, message = msg_sending\<rparr>,
          \<lparr>level = INFO, message = [111, 108, 100]\<rparr>]"
  by (simp add: finished_session_def polling_state_def handler_defs service_defs channel_defs
        literal_defs)

subsection \<open>The real-time channel\<close>

text \<open>
  Claim C4, as amended. Each delivery of a channel message whose level is \<open>ERROR\<close> or
  whose text begins with the completion marker runs the completion callback once and
  \<open>disconnectWebSocket\<close> once, after the message was handed to the log callback; a
  message of another kind runs neither. In the application such a delivery appends the
  message and one closing line to the log, writes one line to the console and clears the
  singleton; it never changes the session status, the results, the request identifier, the
  running handler or the requests issued. The subscription callback keeps no record of an
  earlier completion; only the deactivation is idempotent: a repeated
  \<open>disconnectWebSocket\<close> finds the singleton cleared and deactivates no client.
\<close>

theorem channel_message_effect:
  "(is_completion e \<longrightarrow>
      onMessage onLog onDone e s = disconnectWebSocket (onDone (onLog e s)))
   \<and> (\<not> is_completion e \<longrightarrow> onMessage onLog onDone e s = onLog e s)
   \<and> (i < length (subscriptions s) \<longrightarrow>
        logs (step (WsMessage i e) s)
          = logs s @ (if is_completion e then [e, \<lparr>level = INFO, message = msg_ws_closed\<rparr>]
                      else [e])
      \<and> console (step (WsMessage i e) s)
          = console s @ (if is_completion e then [msg_console_disconnected] else [])
      \<and> stompClient (step (WsMessage i e) s)
          = (if is_completion e then None else stompClient s)
      \<and> analysisStatus (step (WsMessage i e) s) = analysisStatus s
      \<and> results (step (WsMessage i e) s) = results s
      \<and> isAnalyzing (step (WsMessage i e) s) = isAnalyzing s
      \<and> currentRequestId (step (WsMessage i e) s) = currentRequestId s
      \<and> task (step (WsMessage i e) s) = task s
      \<and> net (step (WsMessage i e) s) = net s)
   \<and> clients (disconnectWebSocket (disconnectWebSocket s)) = clients (disconnectWebSocket s)
   \<and> stompClient (disconnectWebSocket s) = None"
proof (intro conjI impI)
  show "clients (disconnectWebSocket (disconnectWebSocket s)) = clients (disconnectWebSocket s)"
    "stompClient (disconnectWebSocket s) = None"
    by (rule disconnect_twice)+
next
  assume "is_completion e"
  then show "onMessage onLog onDone e s = disconnectWebSocket (onDone (onLog e s))"
    by (simp add: onMessage_def is_completion_def Let_def)
next
  assume "\<not> is_completion e"
  then show "onMessage onLog onDone e s = onLog e s"
    by (simp add: onMessage_def is_completion_def Let_def)
next
  assume i: "i < length (subscriptions s)"
  have st: "step (WsMessage i e) s
      = (if is_completion e then disconnectWebSocket (onAnalysisComplete (onLogReceived e s))
         else onLogReceived e s)"
    using i by (simp add: onMessage_completion onMessage_other)
  show "logs (step (WsMessage i e) s)
          = logs s @ (if is_completion e then [e, \<lparr>level = INFO, message = msg_ws_closed\<rparr>]
                      else [e])"
    "console (step (WsMessage i e) s)
          = console s @ (if is_completion e then [msg_console_disconnected] else [])"
    "stompClient (step (WsMessage i e) s)
          = (if is_completion e then None else stompClient s)"
    unfolding st
    by (simp_all add: onLogReceived_def onAnalysisComplete_def addLog_def
          disconnectWebSocket_def Let_def split: option.splits)
  show "analysisStatus (step (WsMessage i e) s) = analysisStatus s"
    "results (step (WsMessage i e) s) = results s"
    "isAnalyzing (step (WsMessage i e) s) = isAnalyzing s"
    "currentRequestId (step (WsMessage i e) s) = currentRequestId s"
    "task (step (WsMessage i e) s) = task s"
    "net (step (WsMessage i e) s) = net s"
    by (rule channel_step_frame, simp)+
qed

text \<open>
  An \<open>ERROR\<close> message and an ordinary message, each delivered to a polling session.
\<close>

theorem channel_message_effect_witness:
  "is_completion \<lparr>level = ERROR, message = [111]\<rparr>
   \<and> is_completion \<lparr>level = INFO, message = completion_marker @ [46]\<rparr>
   \<and> subscriptions polling_state = [(0, [49])]
   \<and> logs (step (WsMessage 0 \<lparr>level = ERROR, message = [111]\<rparr>) polling_state)
       = logs polling_state
         @ [\<lparr>level = ERROR, message = [111]\<rparr>, \<lparr>level = INFO, message = msg_ws_closed\<rparr>]
   \<and> console (step (WsMessage 0 \<lparr>level = ERROR, message = [111]\<rparr>) polling_state)
       = [msg_console_disconnected]
   \<and> logs (step (WsMessage 0 \<lparr>level = INFO, message = [120]\<rparr>) polling_state)
       = logs polling_state @ [\<lparr>level = INFO, message = [120]\<rparr>]
   \<and> console (step (WsMessage 0 \<lparr>level = INFO, message = [120]\<rparr>) polling_state) = []
   \<and> analysisStatus (step (WsMessage 0 \<lparr>level = ERROR, message = [111]\<rparr>) polling_state) = None
   \<and> task (step (WsMessage 0 \<lparr>level = ERROR, message = [111]\<rparr>) polling_state)
       = Polling [49]"
proof -
  have c: "is_completion \<lparr>level = ERROR, message = [111]\<rparr>"
    "is_completion \<lparr>level = INFO, message = completion_marker @ [46]\<rparr>"
    "\<not> is_completion \<lparr>level = INFO, message = [120]\<rparr>"
    by (simp_all add: is_completion_def startsWith_def completion_marker_def)
  have s: "subscriptions polling_state = [(0, [49])]" "console polling_state = []"
    "analysisStatus polling_state = None" "task polling_state = Polling [49]"
    by (simp_all add: polling_state_def handler_defs service_defs channel_defs)
  from c s
       channel_message_effect [of "\<lparr>level = ERROR, message = [111]\<rparr>" onLogReceived
         onAnalysisComplete polling_state 0]
       channel_message_effect [of "\<lparr>level = INFO, message = [120]\<rparr>" onLogReceived
         onAnalysisComplete polling_state 0]
  show ?thesis by (simp del: step.simps)
qed

text \<open>
  Claim C4 as stated does not hold: two \<open>ERROR\<close> messages delivered on one subscription
  give two completion signals and two calls of \<open>disconnectWebSocket\<close>. The same happens
  on a channel that was never deactivated: once a second session has replaced the singleton,
  the first \<open>ERROR\<close> message on the channel of the first session deactivates the client
  of the second session, the client of the first session stays active, and its next
  \<open>ERROR\<close> message signals completion again.
\<close>

theorem repeated_completion_counterexample:
  "subscriptions polling_state = [(0, [49])]
   \<and> completion_signals polling_state = 0 \<and> close_calls polling_state = 0
   \<and> completion_signals
        (run [WsMessage 0 \<lparr>level = ERROR, message = [111]\<rparr>,
              WsMessage 0 \<lparr>level = ERROR, message = [112]\<rparr>] polling_state) = 2
   \<and> close_calls
        (run [WsMessage 0 \<lparr>level = ERROR, message = [111]\<rparr>,
              WsMessage 0 \<lparr>level = ERROR, message = [112]\<rparr>] polling_state) = 2
   \<and> clients (run (finished_session
                    @ [StartUrl [105], SubmitReply (ok_json (JString [50])),
                       WsMessage 0 \<lparr>level = ERROR, message = [111]\<rparr>]) init)
       = [\<lparr>requestId_c = [49], active = True\<rparr>, \<lparr>requestId_c = [50], active = False\<rparr>]
   \<and> completion_signals
        (run (finished_session
              @ [StartUrl [105], SubmitReply (ok_json (JString [50])),
                 WsMessage 0 \<lparr>level = ERROR, message = [111]\<rparr>,
                 WsMessage 0 \<lparr>level = ERROR, message = [112]\<rparr>]) init) = 2"
  by (simp add: finished_session_def polling_state_def handler_defs service_defs channel_defs
        literal_defs)

subsection \<open>The inline-code session\<close>



end
